theory Spec2Isabelle
  imports Complex_Main "HOL-Library.Multiset"
begin

section \<open>Numbers, errors and the catalog\<close>

text \<open>
  The program is a crafting-cost calculator: a catalog of items (base materials with up to
  three prices) and of recipes, a recursive bill-of-materials resolver, a demand aggregator
  and a greedy budget evaluator over per-unit cumulative cost curves.

  Python numbers (ints and floats read from JSON) are modelled as exact rationals: every
  finite float is a rational, and the arithmetic of the model is the exact arithmetic that
  the floats approximate. The sentinel for an unset price or an unlimited cap is \<open>-1\<close>,
  as in the source.
\<close>

datatype error =
    ValueError string
  | KeyError
  | ZeroDivisionError
  | TypeError
  | RecursionError

record item =
  item_price :: rat
  item_category :: string
  item_level :: int
  item_quality :: int
  item_ticket_price :: rat
  item_camp_contribution :: rat
  item_new_dollar :: rat

record recipe =
  recipe_materials :: "(string \<times> rat) list"
  recipe_quantity :: rat
  recipe_crafting_level :: int
  recipe_type :: string
  recipe_is_exclusive :: bool

record data_manager =
  items :: "string \<rightharpoonup> item"
  recipes :: "string \<rightharpoonup> recipe"
  temp_prices :: "string \<rightharpoonup> rat"
  use_custom_prices :: bool

text \<open>\<open>DataManager.get_item_price\<close>: the override when override mode is on and the name
  has one, else the catalog gold price (a missing item is a \<open>KeyError\<close>).\<close>

definition get_item_price :: "data_manager \<Rightarrow> string \<Rightarrow> error + rat" where
  "get_item_price dm item_name =
     (case (if use_custom_prices dm then temp_prices dm item_name else None) of
        Some p \<Rightarrow> Inr p
      | None \<Rightarrow>
          (case items dm item_name of
             None \<Rightarrow> Inl KeyError
           | Some it \<Rightarrow> Inr (item_price it)))"

section \<open>The recipe tree\<close>

text \<open>The dictionary returned by \<open>get_recipe_tree\<close>; \<open>node_price\<close> is present on
  leaves only.\<close>

datatype node = Node
  (node_name: string)
  (node_quantity: rat)
  (node_level: nat)
  (node_is_recipe: bool)
  (node_children: "node list")
  (node_price: "rat option")
  (node_total_cost: rat)
  (node_unit_cost: rat)

text \<open>
  The loop over \<open>recipe["materials"]\<close>: each round computes the child quantity
  \<open>material["quantity"] * quantity / recipe["quantity"]\<close> (a zero divisor raises),
  resolves the child, appends it and adds its cost to the running total.
\<close>

fun for_materials ::
  "(string \<Rightarrow> rat \<Rightarrow> error + node) \<Rightarrow> rat \<Rightarrow> rat \<Rightarrow> (string \<times> rat) list \<Rightarrow>
   node list \<times> rat \<Rightarrow> error + node list \<times> rat" where
  "for_materials resolve quantity rq [] acc = Inr acc"
| "for_materials resolve quantity rq ((material_name, mq) # ms) (children, total_cost) =
     (if rq = 0 then Inl ZeroDivisionError
      else
        (case resolve material_name (mq * quantity / rq) of
           Inl e \<Rightarrow> Inl e
         | Inr child \<Rightarrow>
             for_materials resolve quantity rq ms
               (children @ [child], total_cost + node_total_cost child)))"

text \<open>
  \<open>DataManager.get_recipe_tree\<close>. The first argument is the number of nested
  activations of the function that the interpreter still allows: Python stops a recursion
  that exceeds its limit with \<open>RecursionError\<close>, so every call returns, and a recursion
  that never bottoms out ends in that error.
\<close>

fun get_recipe_tree ::
  "nat \<Rightarrow> data_manager \<Rightarrow> string \<Rightarrow> rat \<Rightarrow> nat \<Rightarrow> error + node" where
  "get_recipe_tree 0 dm item_name quantity level = Inl RecursionError"
| "get_recipe_tree (Suc frames) dm item_name quantity level =
     (case recipes dm item_name of
        Some rcp \<Rightarrow>
          (case for_materials
                  (\<lambda>material_name material_quantity.
                      get_recipe_tree frames dm material_name material_quantity (level + 1))
                  quantity (recipe_quantity rcp) (recipe_materials rcp) ([], 0) of
             Inl e \<Rightarrow> Inl e
           | Inr (children, total_cost) \<Rightarrow>
               if quantity = 0 then Inl ZeroDivisionError
               else Inr (Node item_name quantity level True children None
                           total_cost (total_cost / quantity)))
      | None \<Rightarrow>
          (case items dm item_name of
             Some it \<Rightarrow>
               (case get_item_price dm item_name of
                  Inl e \<Rightarrow> Inl e
                | Inr price \<Rightarrow>
                    Inr (Node item_name quantity level False [] (Some price)
                           (price * quantity) price))
           | None \<Rightarrow> Inl (ValueError item_name)))"

section \<open>Rounding\<close>

text \<open>Python's \<open>round\<close> on a float: the nearest integer, a tie going to the even one.\<close>

definition py_round :: "rat \<Rightarrow> int" where
  "py_round q =
     (let f = \<lfloor>q\<rfloor>; r = q - of_int f
      in if r < 1 / 2 then f
         else if 1 / 2 < r then f + 1
         else if even f then f else f + 1)"

text \<open>\<open>DataManager.round_quantity\<close> with its default threshold \<open>1e-4\<close>.\<close>

definition round_quantity :: "rat \<Rightarrow> int" where
  "round_quantity quantity =
     (let rounded = py_round quantity
      in if \<bar>quantity - of_int rounded\<bar> < 1 / 10000 then rounded
         else \<lceil>quantity\<rceil>)"

section \<open>Demand aggregation\<close>

text \<open>
  A dictionary from material names to quantities is a map. Merging the items of \<open>sub\<close>
  into \<open>base\<close> adds to a key that is present and inserts one that is not; a dictionary
  holds each key once, so the loop over \<open>sub.items()\<close> is the pointwise combination.
\<close>

definition merge_into :: "(string \<rightharpoonup> rat) \<Rightarrow> (string \<rightharpoonup> rat) \<Rightarrow> (string \<rightharpoonup> rat)" where
  "merge_into base sub =
     (\<lambda>k. case sub k of
             None \<Rightarrow> base k
           | Some v \<Rightarrow> (case base k of None \<Rightarrow> Some v | Some b \<Rightarrow> Some (b + v)))"

fun for_base_materials ::
  "(string \<Rightarrow> rat \<Rightarrow> error + (string \<rightharpoonup> rat)) \<Rightarrow> rat \<Rightarrow> rat \<Rightarrow> (string \<times> rat) list \<Rightarrow>
   (string \<rightharpoonup> rat) \<Rightarrow> error + (string \<rightharpoonup> rat)" where
  "for_base_materials resolve quantity rq [] base_materials = Inr base_materials"
| "for_base_materials resolve quantity rq ((material_name, mq) # ms) base_materials =
     (if rq = 0 then Inl ZeroDivisionError
      else
        (case resolve material_name (mq * quantity / rq) of
           Inl e \<Rightarrow> Inl e
         | Inr sub_materials \<Rightarrow>
             for_base_materials resolve quantity rq ms (merge_into base_materials sub_materials)))"

text \<open>\<open>MaterialTrackingPage.get_base_materials\<close>, with the frame budget as above. A name
  without a recipe is a leaf whether or not the catalog knows it as an item.\<close>

fun get_base_materials ::
  "nat \<Rightarrow> data_manager \<Rightarrow> string \<Rightarrow> rat \<Rightarrow> error + (string \<rightharpoonup> rat)" where
  "get_base_materials 0 dm item_name quantity = Inl RecursionError"
| "get_base_materials (Suc frames) dm item_name quantity =
     (case recipes dm item_name of
        Some rcp \<Rightarrow>
          for_base_materials (\<lambda>material_name material_quantity.
                                 get_base_materials frames dm material_name material_quantity)
            quantity (recipe_quantity rcp) (recipe_materials rcp) Map.empty
      | None \<Rightarrow> Inr (Map.empty(item_name \<mapsto> quantity)))"

text \<open>\<open>MaterialTrackingPage.get_total_materials\<close> over the entries of the basket
  \<open>selected_items\<close>, in order.\<close>

fun get_total_materials_from ::
  "nat \<Rightarrow> data_manager \<Rightarrow> (string \<times> rat) list \<Rightarrow> (string \<rightharpoonup> rat) \<Rightarrow> error + (string \<rightharpoonup> rat)" where
  "get_total_materials_from frames dm [] total_materials = Inr total_materials"
| "get_total_materials_from frames dm ((item_name, quantity) # rest) total_materials =
     (case get_base_materials frames dm item_name quantity of
        Inl e \<Rightarrow> Inl e
      | Inr materials \<Rightarrow>
          get_total_materials_from frames dm rest (merge_into total_materials materials))"

definition get_total_materials ::
  "nat \<Rightarrow> data_manager \<Rightarrow> (string \<times> rat) list \<Rightarrow> error + (string \<rightharpoonup> rat)" where
  "get_total_materials frames dm selected_items =
     get_total_materials_from frames dm selected_items Map.empty"

text \<open>The quantity a dictionary holds for a name, zero for an absent name.\<close>

definition amount :: "(string \<rightharpoonup> rat) \<Rightarrow> string \<Rightarrow> rat" where
  "amount d k = (case d k of None \<Rightarrow> 0 | Some v \<Rightarrow> v)"

section \<open>Channel classification and sorting\<close>

text \<open>
  A row of \<open>materials_data\<close> is the positional list
  \<open>[material, quantity, channel_label, channel_price, purchase_price]\<close>; the channel
  price is a number for the ticket and gold channels and a pair for the camp channel.
\<close>

datatype channel_price = Single rat | Pair rat rat

type_synonym materials_row = "string \<times> rat \<times> int \<times> channel_price \<times> rat"
type_synonym ticket_row = "string \<times> rat \<times> int \<times> rat \<times> rat"
type_synonym camp_row = "string \<times> rat \<times> int \<times> (rat \<times> rat) \<times> rat"

text \<open>\<open>MaterialTrackingPage.prepare_materials_data\<close> over the items of
  \<open>total_materials\<close>; a material the catalog does not know is a \<open>KeyError\<close>.\<close>

fun prepare_materials_data ::
  "(string \<rightharpoonup> item) \<Rightarrow> (string \<times> rat) list \<Rightarrow> error + materials_row list" where
  "prepare_materials_data base_materials_data [] = Inr []"
| "prepare_materials_data base_materials_data ((material, quantity) # rest) =
     (case base_materials_data material of
        None \<Rightarrow> Inl KeyError
      | Some item_data \<Rightarrow>
          (let channel_label =
                 (if item_ticket_price item_data \<noteq> -1 then 1
                  else if item_camp_contribution item_data \<noteq> -1 then 2 else (3::int));
               channel_price =
                 (if channel_label = 1 then Single (item_ticket_price item_data)
                  else if channel_label = 2
                    then Pair (item_camp_contribution item_data) (item_new_dollar item_data)
                  else Single (item_price item_data));
               purchase_price = item_price item_data
           in case prepare_materials_data base_materials_data rest of
                Inl e \<Rightarrow> Inl e
              | Inr rows \<Rightarrow>
                  Inr ((material, quantity, channel_label, channel_price, purchase_price) # rows)))"

text \<open>
  The sort keys \<open>x[3]/x[4]\<close> and \<open>x[3][0]/x[4]\<close>. Dividing a pair, or subscripting a
  number, is a \<open>TypeError\<close>; a gold price of zero is a \<open>ZeroDivisionError\<close>. A row whose
  key was computed has the shape its channel needs, which the result type records.
\<close>

fun key_A :: "materials_row \<Rightarrow> error + rat \<times> ticket_row" where
  "key_A (material, quantity, label, Single ticket_price, gold_price) =
     (if gold_price = 0 then Inl ZeroDivisionError
      else Inr (ticket_price / gold_price, (material, quantity, label, ticket_price, gold_price)))"
| "key_A (material, quantity, label, Pair c n, gold_price) = Inl TypeError"

fun key_B :: "materials_row \<Rightarrow> error + rat \<times> camp_row" where
  "key_B (material, quantity, label, Pair camp_price new_dollar_price, gold_price) =
     (if gold_price = 0 then Inl ZeroDivisionError
      else Inr (camp_price / gold_price,
                (material, quantity, label, (camp_price, new_dollar_price), gold_price)))"
| "key_B (material, quantity, label, Single p, gold_price) = Inl TypeError"

text \<open>The keys of all rows, in order; the first failure is the one raised.\<close>

fun keys_of :: "('a \<Rightarrow> error + 'b) \<Rightarrow> 'a list \<Rightarrow> error + 'b list" where
  "keys_of f [] = Inr []"
| "keys_of f (x # xs) =
     (case f x of
        Inl e \<Rightarrow> Inl e
      | Inr y \<Rightarrow> (case keys_of f xs of Inl e \<Rightarrow> Inl e | Inr ys \<Rightarrow> Inr (y # ys)))"

text \<open>\<open>MaterialTrackingPage.split_materials\<close>: \<open>list.sort(key=...)\<close> computes every
  key, then sorts stably in ascending key order.\<close>

definition split_materials ::
  "materials_row list \<Rightarrow> error + ticket_row list \<times> camp_row list \<times> materials_row list" where
  "split_materials materials_data =
     (let A = filter (\<lambda>(material, quantity, label, cp, gp). label = 1) materials_data;
          B = filter (\<lambda>(material, quantity, label, cp, gp). label = 2) materials_data;
          C = filter (\<lambda>(material, quantity, label, cp, gp). label = 3) materials_data
      in case keys_of key_A A of
           Inl e \<Rightarrow> Inl e
         | Inr keyed_A \<Rightarrow>
             (case keys_of key_B B of
                Inl e \<Rightarrow> Inl e
              | Inr keyed_B \<Rightarrow>
                  Inr (map snd (sort_key fst keyed_A), map snd (sort_key fst keyed_B), C)))"

section \<open>Curve expansion\<close>

type_synonym ticket_entry = "string \<times> rat \<times> rat"
type_synonym camp_entry = "string \<times> rat \<times> rat \<times> rat"

text \<open>The inner loop of \<open>expand_A\<close>: \<open>n\<close> rounds, each advancing the running ticket
  cost, lowering the running gold cost when the material has a gold price, and appending
  an entry.\<close>

fun emit_A ::
  "nat \<Rightarrow> string \<Rightarrow> rat \<Rightarrow> rat \<Rightarrow> rat \<times> rat \<times> ticket_entry list \<Rightarrow>
   rat \<times> rat \<times> ticket_entry list" where
  "emit_A 0 material ticket_price gold_price st = st"
| "emit_A (Suc n) material ticket_price gold_price (ticket_cost, gold_cost_A, A_expand) =
     (let ticket_cost' = ticket_cost + ticket_price;
          gold_cost_A' = (if gold_price \<noteq> -1 then gold_cost_A - gold_price else gold_cost_A)
      in emit_A n material ticket_price gold_price
           (ticket_cost', gold_cost_A', A_expand @ [(material, ticket_cost', gold_cost_A')]))"

fun loop_A ::
  "ticket_row list \<Rightarrow> rat \<times> rat \<times> ticket_entry list \<Rightarrow> rat \<times> rat \<times> ticket_entry list" where
  "loop_A [] st = st"
| "loop_A ((material, quantity, label, ticket_price, gold_price) # rest) st =
     loop_A rest (emit_A (nat (round_quantity quantity)) material ticket_price gold_price st)"

text \<open>
  \<open>MaterialTrackingPage.expand_A\<close>. The running costs are exact here, where the program
  accumulates doubles. What is proved of the curves below is their order, the number of
  entries of each material, and values at inputs where the doubles are exact as well; the
  exact value at which a running gold cost ends is not.
\<close>

definition expand_A :: "ticket_row list \<Rightarrow> ticket_entry list" where
  "expand_A A =
     (let ticket_cost = 0;
          gold_cost_A = sum_list (map (\<lambda>(material, quantity, label, tp, gp). quantity * gp)
                          (filter (\<lambda>(material, quantity, label, tp, gp). gp \<noteq> -1) A))
      in snd (snd (loop_A A (ticket_cost, gold_cost_A, []))))"

fun emit_B ::
  "nat \<Rightarrow> string \<Rightarrow> rat \<Rightarrow> rat \<Rightarrow> rat \<Rightarrow> rat \<times> rat \<times> rat \<times> camp_entry list \<Rightarrow>
   rat \<times> rat \<times> rat \<times> camp_entry list" where
  "emit_B 0 material camp_price new_dollar_price gold_price st = st"
| "emit_B (Suc n) material camp_price new_dollar_price gold_price
      (camp_cost, new_dollar_cost, gold_cost_B, B_expand) =
     (let camp_cost' = camp_cost + camp_price;
          new_dollar_cost' = new_dollar_cost + new_dollar_price;
          gold_cost_B' = (if gold_price \<noteq> -1 then gold_cost_B - gold_price else gold_cost_B)
      in emit_B n material camp_price new_dollar_price gold_price
           (camp_cost', new_dollar_cost', gold_cost_B',
            B_expand @ [(material, camp_cost', new_dollar_cost', gold_cost_B')]))"

fun loop_B ::
  "camp_row list \<Rightarrow> rat \<times> rat \<times> rat \<times> camp_entry list \<Rightarrow>
   rat \<times> rat \<times> rat \<times> camp_entry list" where
  "loop_B [] st = st"
| "loop_B ((material, quantity, label, (camp_price, new_dollar_price), gold_price) # rest) st =
     loop_B rest
       (emit_B (nat (round_quantity quantity)) material camp_price new_dollar_price gold_price st)"

text \<open>\<open>MaterialTrackingPage.expand_B\<close>, with the same exact running costs.\<close>

definition expand_B :: "camp_row list \<Rightarrow> camp_entry list" where
  "expand_B B =
     (let camp_cost = 0;
          new_dollar_cost = 0;
          gold_cost_B = sum_list (map (\<lambda>(material, quantity, label, cp, gp). quantity * gp)
                          (filter (\<lambda>(material, quantity, label, cp, gp). gp \<noteq> -1) B))
      in snd (snd (snd (loop_B B (camp_cost, new_dollar_cost, gold_cost_B, [])))))"

section \<open>Budget evaluation\<close>

text \<open>
  The three buckets are dictionaries created with every material of the channel at zero;
  \<open>d[k] += 1\<close> on a missing key is a \<open>KeyError\<close>. \<open>temp_A\<close> is the last accepted entry,
  or \<open>[None, 0, 0]\<close>.
\<close>

type_synonym bucket = "string \<rightharpoonup> rat"

text \<open>The comprehension \<open>{item[0]: 0 for item in rows}\<close>.\<close>

definition zero_buckets :: "(string \<times> rat \<times> 'l \<times> 'p \<times> 'g) list \<Rightarrow> bucket" where
  "zero_buckets rows = map_of (map (\<lambda>(material, quantity, label, p, gp). (material, 0)) rows)"

text \<open>The loop \<open>for item in rows: d[item[0]] = item[1]\<close> of the unlimited case.\<close>

fun set_all :: "bucket \<Rightarrow> (string \<times> rat \<times> 'l \<times> 'p \<times> 'g) list \<Rightarrow> bucket" where
  "set_all d [] = d"
| "set_all d ((material, quantity, label, p, gp) # rest) =
     set_all (d(material \<mapsto> quantity)) rest"

definition increment :: "bucket \<Rightarrow> string \<Rightarrow> error + bucket" where
  "increment d k = (case d k of None \<Rightarrow> Inl KeyError | Some v \<Rightarrow> Inr (d(k \<mapsto> v + 1)))"

fun walk_A ::
  "int \<Rightarrow> ticket_entry list \<Rightarrow>
   bucket \<times> bucket \<times> bucket \<times> (string option \<times> rat \<times> rat) \<Rightarrow>
   error + bucket \<times> bucket \<times> bucket \<times> (string option \<times> rat \<times> rat)" where
  "walk_A max_tickets [] st = Inr st"
| "walk_A max_tickets ((material, ticket_cost, gold_cost) # rest) (A1, A2, A3, temp_A) =
     (if ticket_cost \<le> of_int max_tickets then
        (case increment A1 material of
           Inl e \<Rightarrow> Inl e
         | Inr A1' \<Rightarrow>
             walk_A max_tickets rest (A1', A2, A3, (Some material, ticket_cost, gold_cost)))
      else if gold_cost \<noteq> -1 then
        (case increment A2 material of
           Inl e \<Rightarrow> Inl e
         | Inr A2' \<Rightarrow> walk_A max_tickets rest (A1, A2', A3, temp_A))
      else
        (case increment A3 material of
           Inl e \<Rightarrow> Inl e
         | Inr A3' \<Rightarrow> walk_A max_tickets rest (A1, A2, A3', temp_A)))"

text \<open>\<open>MaterialTrackingPage.calculate_A_materials\<close>, reading \<open>self.A\<close>,
  \<open>self.A_expand\<close> and the ticket cap.\<close>

definition calculate_A_materials ::
  "ticket_row list \<Rightarrow> ticket_entry list \<Rightarrow> int \<Rightarrow>
   error + bucket \<times> bucket \<times> bucket \<times> (string option \<times> rat \<times> rat)" where
  "calculate_A_materials A A_expand max_tickets =
     (let A1 = zero_buckets A;
          A2 = A1;
          A3 = A1
      in if max_tickets = -1 then
           Inr (set_all A1 A, A2, A3,
                (if A_expand \<noteq> []
                 then (case last A_expand of (material, tc, gc) \<Rightarrow> (Some material, tc, gc))
                 else (None, 0, 0)))
         else walk_A max_tickets A_expand (A1, A2, A3, (None, 0, 0)))"

fun walk_B ::
  "int \<Rightarrow> int \<Rightarrow> camp_entry list \<Rightarrow>
   bucket \<times> bucket \<times> bucket \<times> (string option \<times> rat \<times> rat \<times> rat) \<Rightarrow>
   error + bucket \<times> bucket \<times> bucket \<times> (string option \<times> rat \<times> rat \<times> rat)" where
  "walk_B max_camp max_new_dollar [] st = Inr st"
| "walk_B max_camp max_new_dollar ((material, camp_cost, new_dollar_cost, gold_cost) # rest)
      (B1, B2, B3, temp_B) =
     (if (max_camp = -1 \<or> camp_cost \<le> of_int max_camp)
         \<and> (max_new_dollar = -1 \<or> new_dollar_cost \<le> of_int max_new_dollar) then
        (case increment B1 material of
           Inl e \<Rightarrow> Inl e
         | Inr B1' \<Rightarrow>
             walk_B max_camp max_new_dollar rest
               (B1', B2, B3, (Some material, camp_cost, new_dollar_cost, gold_cost)))
      else if gold_cost \<noteq> -1 then
        (case increment B2 material of
           Inl e \<Rightarrow> Inl e
         | Inr B2' \<Rightarrow> walk_B max_camp max_new_dollar rest (B1, B2', B3, temp_B))
      else
        (case increment B3 material of
           Inl e \<Rightarrow> Inl e
         | Inr B3' \<Rightarrow> walk_B max_camp max_new_dollar rest (B1, B2, B3', temp_B)))"

text \<open>\<open>MaterialTrackingPage.calculate_B_materials\<close>.\<close>

definition calculate_B_materials ::
  "camp_row list \<Rightarrow> camp_entry list \<Rightarrow> int \<Rightarrow> int \<Rightarrow>
   error + bucket \<times> bucket \<times> bucket \<times> (string option \<times> rat \<times> rat \<times> rat)" where
  "calculate_B_materials B B_expand max_camp max_new_dollar =
     (let B1 = zero_buckets B;
          B2 = B1;
          B3 = B1
      in if max_camp = -1 \<and> max_new_dollar = -1 then
           Inr (set_all B1 B, B2, B3,
                (if B_expand \<noteq> []
                 then (case last B_expand of
                         (material, cc, nc, gc) \<Rightarrow> (Some material, cc, nc, gc))
                 else (None, 0, 0, 0)))
         else walk_B max_camp max_new_dollar B_expand (B1, B2, B3, (None, 0, 0, 0)))"

text \<open>
  \<open>MaterialTrackingPage.calculate_C_materials\<close>, over the rows of the gold-only channel,
  whose channel price \<open>item[3]\<close> is the gold price. The caps play no part. A pair in the
  place of the price compares unequal to \<open>-1\<close> and then fails in the cost arithmetic.
\<close>

fun walk_C ::
  "materials_row list \<Rightarrow> bucket \<times> bucket \<times> rat \<Rightarrow> error + bucket \<times> bucket \<times> rat" where
  "walk_C [] st = Inr st"
| "walk_C ((material, quantity, label, Single price, gp) # rest) (C2, C3, temp_C) =
     (if price \<noteq> -1 then
        walk_C rest (C2(material \<mapsto> quantity), C3, temp_C + quantity * price)
      else walk_C rest (C2, C3(material \<mapsto> quantity), temp_C))"
| "walk_C ((material, quantity, label, Pair c n, gp) # rest) st = Inl TypeError"

definition calculate_C_materials ::
  "materials_row list \<Rightarrow> error + bucket \<times> bucket \<times> rat" where
  "calculate_C_materials C =
     (let C2 = zero_buckets C;
          C3 = C2;
          temp_C = 0
      in walk_C C (C2, C3, temp_C))"

section \<open>Specification predicates for the recipe tree\<close>

text \<open>The price a leaf is charged at: the override when override mode is active and the
  name has one, else the catalog gold price.\<close>

definition effective_price :: "data_manager \<Rightarrow> string \<Rightarrow> item \<Rightarrow> rat" where
  "effective_price dm name it =
     (if use_custom_prices dm
      then (case temp_prices dm name of Some override \<Rightarrow> override | None \<Rightarrow> item_price it)
      else item_price it)"

text \<open>
  A tree is a correct bill of materials when, at every depth, a name that has a recipe is
  a recipe node (also when the catalog lists the same name as an item: recipes come
  first), with one child per material of its recipe, in order, at quantity
  \<open>q\<^sub>i * n / Q\<close>, costing the sum of its children and with unit cost \<open>total / n\<close>; and
  a name without a recipe is a leaf costing its effective price times its quantity.
\<close>

fun bom_ok :: "data_manager \<Rightarrow> node \<Rightarrow> bool" where
  "bom_ok dm (Node name quantity level is_recipe children price total_cost unit_cost) =
     (case recipes dm name of
        Some rcp \<Rightarrow>
          is_recipe
          \<and> map (\<lambda>c. (node_name c, node_quantity c)) children =
              map (\<lambda>(m, mq). (m, mq * quantity / recipe_quantity rcp)) (recipe_materials rcp)
          \<and> total_cost = sum_list (map node_total_cost children)
          \<and> unit_cost = total_cost / quantity
          \<and> (\<forall>c \<in> set children. bom_ok dm c)
      | None \<Rightarrow>
          (case items dm name of
             None \<Rightarrow> False
           | Some it \<Rightarrow>
               \<not> is_recipe \<and> children = []
               \<and> total_cost = effective_price dm name it * quantity
               \<and> unit_cost = effective_price dm name it))"

text \<open>The data invariants of a catalog: no recipe produces zero units or asks for zero
  units of a material, and every material of a recipe is a recipe or an item.\<close>

definition valid_catalog :: "data_manager \<Rightarrow> bool" where
  "valid_catalog dm =
     (\<forall>p rcp. recipes dm p = Some rcp \<longrightarrow>
        recipe_quantity rcp \<noteq> 0 \<and>
        (\<forall>(m, mq) \<in> set (recipe_materials rcp).
           mq \<noteq> 0 \<and> (recipes dm m \<noteq> None \<or> items dm m \<noteq> None)))"

text \<open>Acyclicity, witnessed by a rank that every recipe's materials lie strictly below.\<close>

definition acyclic_by :: "(string \<Rightarrow> nat) \<Rightarrow> data_manager \<Rightarrow> bool" where
  "acyclic_by rank dm =
     (\<forall>p rcp. recipes dm p = Some rcp \<longrightarrow>
        (\<forall>(m, mq) \<in> set (recipe_materials rcp). rank m < rank p))"


section \<open>Example catalogs\<close>

definition wood_dm :: data_manager where
  "wood_dm =
     \<lparr> items = [''Wood'' \<mapsto>
                  \<lparr> item_price = 10, item_category = ''wood'', item_level = 1,
                    item_quality = 1, item_ticket_price = -1,
                    item_camp_contribution = -1, item_new_dollar = -1 \<rparr>],
       recipes = [''Plank'' \<mapsto>
                    \<lparr> recipe_materials = [(''Wood'', 2)], recipe_quantity = 1,
                      recipe_crafting_level = 1, recipe_type = ''basic'',
                      recipe_is_exclusive = False \<rparr>],
       temp_prices = Map.empty,
       use_custom_prices = False \<rparr>"

definition wood_rank :: "string \<Rightarrow> nat" where
  "wood_rank name = (if name = ''Plank'' then 1 else 0)"

text \<open>\<open>Plank\<close> is semi-finished: an item with gold price 100 and also a recipe of two
  \<open>Wood\<close>; a \<open>Table\<close> takes four planks.\<close>

definition semi_dm :: data_manager where
  "semi_dm =
     \<lparr> items = [''Wood'' \<mapsto>
                  \<lparr> item_price = 10, item_category = ''wood'', item_level = 1,
                    item_quality = 1, item_ticket_price = -1,
                    item_camp_contribution = -1, item_new_dollar = -1 \<rparr>,
                ''Plank'' \<mapsto>
                  \<lparr> item_price = 100, item_category = ''semi'', item_level = 1,
                    item_quality = 1, item_ticket_price = -1,
                    item_camp_contribution = -1, item_new_dollar = -1 \<rparr>],
       recipes = [''Plank'' \<mapsto>
                    \<lparr> recipe_materials = [(''Wood'', 2)], recipe_quantity = 1,
                      recipe_crafting_level = 1, recipe_type = ''basic'',
                      recipe_is_exclusive = False \<rparr>,
                  ''Table'' \<mapsto>
                    \<lparr> recipe_materials = [(''Plank'', 4)], recipe_quantity = 1,
                      recipe_crafting_level = 1, recipe_type = ''basic'',
                      recipe_is_exclusive = False \<rparr>],
       temp_prices = Map.empty,
       use_custom_prices = False \<rparr>"

definition semi_rank :: "string \<Rightarrow> nat" where
  "semi_rank name = (if name = ''Table'' then 2 else if name = ''Plank'' then 1 else 0)"


text \<open>\<open>Ore\<close> has a ticket price and no gold price (the item editor stores \<open>-1\<close> when
  the gold price is switched off).\<close>

definition ore_dm :: data_manager where
  "ore_dm =
     \<lparr> items = [''Ore'' \<mapsto>
                  \<lparr> item_price = -1, item_category = ''mineral'', item_level = 1,
                    item_quality = 1, item_ticket_price = 5,
                    item_camp_contribution = -1, item_new_dollar = -1 \<rparr>],
       recipes = Map.empty,
       temp_prices = Map.empty,
       use_custom_prices = False \<rparr>"

text \<open>A table takes four planks and one wood, a plank takes two wood: wood is reached
  along two paths.\<close>

definition table_dm :: data_manager where
  "table_dm =
     \<lparr> items = [''Wood'' \<mapsto>
                  \<lparr> item_price = 10, item_category = ''wood'', item_level = 1,
                    item_quality = 1, item_ticket_price = -1,
                    item_camp_contribution = -1, item_new_dollar = -1 \<rparr>],
       recipes = [''Plank'' \<mapsto>
                    \<lparr> recipe_materials = [(''Wood'', 2)], recipe_quantity = 1,
                      recipe_crafting_level = 1, recipe_type = ''basic'',
                      recipe_is_exclusive = False \<rparr>,
                  ''Table'' \<mapsto>
                    \<lparr> recipe_materials = [(''Plank'', 4), (''Wood'', 1)], recipe_quantity = 1,
                      recipe_crafting_level = 1, recipe_type = ''basic'',
                      recipe_is_exclusive = False \<rparr>],
       temp_prices = Map.empty,
       use_custom_prices = False \<rparr>"

section \<open>Auxiliary notions for the proofs\<close>



text \<open>Every quantity of a dictionary multiplied by a factor.\<close>

definition scale :: "rat \<Rightarrow> (string \<rightharpoonup> rat) \<Rightarrow> (string \<rightharpoonup> rat)" where
  "scale c d = (\<lambda>k. map_option (\<lambda>v. c * v) (d k))"


text \<open>The number of rounds of \<open>range(round_quantity(quantity))\<close>.\<close>

definition units :: "rat \<Rightarrow> nat" where
  "units quantity = nat (round_quantity quantity)"



text \<open>Example rows.\<close>

definition ore_rows :: "ticket_row list" where
  "ore_rows = [(''Ore'', 5 / 2, 1, 5, 8)]"

definition hemp_rows :: "camp_row list" where
  "hemp_rows = [(''Hemp'', 3 / 2, 2, (4, 7), 6)]"

text \<open>The material names of the unit entries a list of rows expands to.\<close>

fun unit_names :: "(string \<times> rat \<times> 'l \<times> 'p \<times> 'g) list \<Rightarrow> string list" where
  "unit_names [] = []"
| "unit_names ((m, q, l, p, gp) # R) = replicate (units q) m @ unit_names R"

definition no_gold_rows :: "ticket_row list" where
  "no_gold_rows = [(''Ore'', 1, 1, 5, - 1)]"

definition short_rows :: "ticket_row list" where
  "short_rows = [(''Ore'', 9 / 10, 1, 5, 10)]"

text \<open>A row whose channel price is a number, as every row of the gold-only channel is.\<close>

fun single_priced :: "materials_row \<Rightarrow> bool" where
  "single_priced (m, q, l, Single p, gp) = True"
| "single_priced (m, q, l, Pair c n, gp) = False"

definition gold_rows :: "materials_row list" where
  "gold_rows = [(''Wood'', 5 / 2, 3, Single 10, 10), (''Moss'', 7 / 2, 3, Single (- 1), - 1)]"

text \<open>A row has the shape of its channel, and a usable divisor where it is sorted.\<close>

fun sortable :: "materials_row \<Rightarrow> bool" where
  "sortable (m, q, l, Single p, gp) = (l \<noteq> 2 \<and> (l = 1 \<longrightarrow> gp \<noteq> 0))"
| "sortable (m, q, l, Pair c n, gp) = (l \<noteq> 1 \<and> (l = 2 \<longrightarrow> gp \<noteq> 0))"

text \<open>A sorted row read back as a row of \<open>materials_data\<close>, and the sort keys.\<close>

definition untyped_A :: "ticket_row \<Rightarrow> materials_row" where
  "untyped_A row = (case row of (m, q, l, tp, gp) \<Rightarrow> (m, q, l, Single tp, gp))"

definition untyped_B :: "camp_row \<Rightarrow> materials_row" where
  "untyped_B row = (case row of (m, q, l, (cp, np), gp) \<Rightarrow> (m, q, l, Pair cp np, gp))"

definition ratio_A :: "ticket_row \<Rightarrow> rat" where
  "ratio_A row = (case row of (m, q, l, tp, gp) \<Rightarrow> tp / gp)"

definition ratio_B :: "camp_row \<Rightarrow> rat" where
  "ratio_B row = (case row of (m, q, l, (cp, np), gp) \<Rightarrow> cp / gp)"

definition mixed_rows :: "materials_row list" where
  "mixed_rows =
     [(''Ore'', 3, 1, Single 5, 8), (''Hemp'', 2, 2, Pair 4 7, 6), (''Wood'', 4, 3, Single 10, 10),
      (''Gem'', 1, 1, Single 3, - 1), (''Fur'', 2, 2, Pair 1 9, 2), (''Oak'', 1, 1, Single 2, 10)]"

definition unset_gold_rows :: "materials_row list" where
  "unset_gold_rows = [(''X'', 1, 1, Single 1, - 1), (''Y'', 1, 1, Single 2, - 1)]"

section \<open>Rounding policy\<close>

lemma py_round_near: "\<bar>q - of_int (py_round q)\<bar> \<le> 1 / 2"
  unfolding py_round_def Let_def by (auto simp: abs_if) linarith+

text \<open>
  Claim C6. For every quantity \<open>q\<close>, \<open>round_quantity q\<close> is \<open>round q\<close> when \<open>q\<close> is
  closer than \<open>1e-4\<close> to it and the ceiling of \<open>q\<close> otherwise, where \<open>round\<close> is a
  nearest integer; \<open>round_quantity\<close> maps 2.99995 to 3, 2.5001 to 3 and 5.00003 to 5.
\<close>

theorem round_quantity_policy:
  "round_quantity q =
     (if \<bar>q - of_int (py_round q)\<bar> < 1 / 10000 then py_round q else \<lceil>q\<rceil>)
   \<and> \<bar>q - of_int (py_round q)\<bar> \<le> 1 / 2
   \<and> round_quantity (299995 / 100000) = 3
   \<and> round_quantity (25001 / 10000) = 3
   \<and> round_quantity (500003 / 100000) = 5"
proof -
  have policy: "round_quantity q =
     (if \<bar>q - of_int (py_round q)\<bar> < 1 / 10000 then py_round q else \<lceil>q\<rceil>)"
    by (simp add: round_quantity_def Let_def)
  have snap_up: "round_quantity (299995 / 100000) = 3" by code_simp
  have ceil_up: "round_quantity (25001 / 10000) = 3" by code_simp
  have snap_down: "round_quantity (500003 / 100000) = 5" by code_simp
  show ?thesis using policy py_round_near snap_up ceil_up snap_down by blast
qed

section \<open>Bill-of-materials resolution\<close>

lemma for_materials_ok:
  assumes "rq \<noteq> 0"
    and "\<forall>(m, mq) \<in> set ms. \<exists>c. resolve m (mq * q / rq) = Inr c"
  shows "for_materials resolve q rq ms (ch, tot) =
           Inr (ch @ map (\<lambda>(m, mq). projr (resolve m (mq * q / rq))) ms,
                tot + sum_list (map (\<lambda>(m, mq). node_total_cost (projr (resolve m (mq * q / rq)))) ms))"
  using assms
proof (induction ms arbitrary: ch tot)
  case Nil
  then show ?case by simp
next
  case (Cons a ms)
  obtain m mq where a: "a = (m, mq)" by (cases a)
  from Cons.prems a obtain c where c: "resolve m (mq * q / rq) = Inr c" by auto
  have rest: "\<forall>(m, mq) \<in> set ms. \<exists>c. resolve m (mq * q / rq) = Inr c"
    using Cons.prems by auto
  show ?case
    using Cons.IH [OF Cons.prems(1) rest] a c Cons.prems(1) by (simp add: add.assoc)
qed

lemma get_item_price_effective:
  "items dm x = Some it \<Longrightarrow> get_item_price dm x = Inr (effective_price dm x it)"
  by (auto simp: get_item_price_def effective_price_def split: option.splits)

lemma get_recipe_tree_ok:
  assumes "valid_catalog dm" and "acyclic_by rank dm"
  shows "rank x < frames \<Longrightarrow> q \<noteq> 0 \<Longrightarrow> recipes dm x \<noteq> None \<or> items dm x \<noteq> None \<Longrightarrow>
         \<exists>node. get_recipe_tree frames dm x q lvl = Inr node \<and> node_name node = x
            \<and> node_quantity node = q \<and> node_is_recipe node = (recipes dm x \<noteq> None)
            \<and> bom_ok dm node"
proof (induction frames arbitrary: x q lvl)
  case 0
  then show ?case by simp
next
  case (Suc frames)
  show ?case
  proof (cases "recipes dm x")
    case None
    with Suc.prems obtain it where it: "items dm x = Some it" by auto
    show ?thesis using None it get_item_price_effective [OF it] by simp
  next
    case (Some rcp)
    let ?res = "\<lambda>m mqt. get_recipe_tree frames dm m mqt (lvl + 1)"
    have rq: "recipe_quantity rcp \<noteq> 0" using assms(1) Some by (auto simp: valid_catalog_def)
    have each: "\<exists>node. ?res m (mq * q / recipe_quantity rcp) = Inr node \<and> node_name node = m
            \<and> node_quantity node = mq * q / recipe_quantity rcp \<and> bom_ok dm node"
      if "(m, mq) \<in> set (recipe_materials rcp)" for m mq
    proof -
      have "mq \<noteq> 0" "recipes dm m \<noteq> None \<or> items dm m \<noteq> None"
        using assms(1) Some that unfolding valid_catalog_def by blast+
      moreover have "rank m < rank x" using assms(2) Some that unfolding acyclic_by_def by blast
      ultimately show ?thesis
        using Suc.IH [of m "mq * q / recipe_quantity rcp" "lvl + 1"] Suc.prems rq by auto
    qed
    then have ex: "\<forall>(m, mq) \<in> set (recipe_materials rcp).
        \<exists>c. ?res m (mq * q / recipe_quantity rcp) = Inr c" by blast
    let ?cs = "map (\<lambda>(m, mq). projr (?res m (mq * q / recipe_quantity rcp))) (recipe_materials rcp)"
    have fm: "for_materials ?res q (recipe_quantity rcp) (recipe_materials rcp) ([], 0) =
        Inr (?cs, sum_list (map node_total_cost ?cs))"
      using for_materials_ok [OF rq ex, of "[]" 0] by (simp add: comp_def case_prod_unfold)
    have each': "node_name (projr (?res m (mq * q / recipe_quantity rcp))) = m
        \<and> node_quantity (projr (?res m (mq * q / recipe_quantity rcp))) = mq * q / recipe_quantity rcp
        \<and> bom_ok dm (projr (?res m (mq * q / recipe_quantity rcp)))"
      if "(m, mq) \<in> set (recipe_materials rcp)" for m mq
      using each [OF that] by auto
    have names: "map (\<lambda>c. (node_name c, node_quantity c)) ?cs =
        map (\<lambda>(m, mq). (m, mq * q / recipe_quantity rcp)) (recipe_materials rcp)"
      using each' by (auto simp: case_prod_unfold) 
    have oks: "\<forall>c \<in> set ?cs. bom_ok dm c" using each' by auto
    show ?thesis using Some fm names oks Suc.prems(2) by simp
  qed
qed

text \<open>A correct bill of materials for a name and a quantity has one possible total
  cost.\<close>

lemma bom_ok_total_unique:
  "bom_ok dm t \<Longrightarrow> bom_ok dm t' \<Longrightarrow> node_name t = node_name t' \<Longrightarrow>
   node_quantity t = node_quantity t' \<Longrightarrow> node_total_cost t = node_total_cost t'"
proof (induction t arbitrary: t')
  case (Node name quantity level is_recipe children price total_cost unit_cost)
  obtain name' quantity' level' is_recipe' children' price' total_cost' unit_cost'
    where t': "t' = Node name' quantity' level' is_recipe' children' price' total_cost' unit_cost'"
    by (cases t')
  have same: "name' = name" "quantity' = quantity" using Node.prems(3,4) t' by simp_all
  show ?case
  proof (cases "recipes dm name")
    case None
    then show ?thesis using Node.prems(1,2) t' same by (auto split: option.splits)
  next
    case (Some rcp)
    let ?key = "\<lambda>c. (node_name c, node_quantity c)"
    from Node.prems(1) Some have c1: "map ?key children =
        map (\<lambda>(m, mq). (m, mq * quantity / recipe_quantity rcp)) (recipe_materials rcp)"
      and tot: "total_cost = sum_list (map node_total_cost children)"
      and ok1: "\<forall>c \<in> set children. bom_ok dm c" by simp_all
    from Node.prems(2) Some t' same have c2: "map ?key children' =
        map (\<lambda>(m, mq). (m, mq * quantity / recipe_quantity rcp)) (recipe_materials rcp)"
      and tot': "total_cost' = sum_list (map node_total_cost children')"
      and ok2: "\<forall>c \<in> set children'. bom_ok dm c" by simp_all
    from c1 c2 have keys: "map ?key children = map ?key children'" by simp
    then have len: "length children = length children'" by (rule map_eq_imp_length_eq)
    have "map node_total_cost children = map node_total_cost children'"
    proof (rule nth_equalityI)
      show "length (map node_total_cost children) = length (map node_total_cost children')"
        using len by simp
    next
      fix i assume "i < length (map node_total_cost children)"
      then have i: "i < length children" "i < length children'" using len by simp_all
      have ci: "children ! i \<in> set children" "children' ! i \<in> set children'"
        using i by simp_all
      from keys have "map ?key children ! i = map ?key children' ! i" by (rule arg_cong)
      then have kk: "node_name (children ! i) = node_name (children' ! i)"
        "node_quantity (children ! i) = node_quantity (children' ! i)"
        using i by simp_all
      have "node_total_cost (children ! i) = node_total_cost (children' ! i)"
      proof (rule Node.IH)
        show "children ! i \<in> set children" by (rule ci(1))
        show "bom_ok dm (children ! i)" using ok1 ci(1) by blast
        show "bom_ok dm (children' ! i)" using ok2 ci(2) by blast
        show "node_name (children ! i) = node_name (children' ! i)" by (rule kk(1))
        show "node_quantity (children ! i) = node_quantity (children' ! i)" by (rule kk(2))
      qed
      then show "map node_total_cost children ! i = map node_total_cost children' ! i"
        using i by simp
    qed
    then show ?thesis using tot tot' t' by simp
  qed
qed

lemma semi_dm_Table:
  "get_recipe_tree 3 semi_dm ''Table'' 1 0 =
     Inr (Node ''Table'' 1 0 True
            [Node ''Plank'' 4 1 True [Node ''Wood'' 8 2 False [] (Some 10) 80 10] None 80 20]
            None 80 80)"
  by (simp add: semi_dm_def numeral_3_eq_3 get_item_price_def)

text \<open>A tree that charges the semi-finished plank at its gold price is not a correct bill
  of materials.\<close>

lemma semi_dm_leaf_rejected:
  "\<not> bom_ok semi_dm
       (Node ''Table'' 1 0 True [Node ''Plank'' 4 1 False [] (Some 100) 400 100] None 400 400)"
  by (simp add: semi_dm_def)

text \<open>
  Claim C1. In a valid catalog that is acyclic, resolving a product that has a recipe, for
  a non-zero quantity \<open>n\<close> and with enough call frames for the nesting depth, returns a
  recipe node whose children are the materials of the recipe at quantities \<open>q\<^sub>i * n / Q\<close>,
  whose total cost is the sum of its children's total costs, whose unit cost is the total
  divided by \<open>n\<close>, and which is a correct bill of materials all the way down: recipes
  are expanded at every depth, leaves are charged at effective price times quantity, and
  no other correct bill of materials for the product and \<open>n\<close> has a different total.
  With Wood at gold price 10 and Plank made of two Wood, resolving three Planks gives
  total cost 60 and unit cost 20.
\<close>

theorem recipe_tree_cost:
  assumes "valid_catalog dm" and "acyclic_by rank dm"
    and "recipes dm product = Some rcp" and "n \<noteq> 0" and "rank product < frames"
  shows "(\<exists>node. get_recipe_tree frames dm product n level = Inr node
            \<and> node_name node = product \<and> node_quantity node = n
            \<and> node_is_recipe node
            \<and> map (\<lambda>c. (node_name c, node_quantity c)) (node_children node) =
                map (\<lambda>(m, q). (m, q * n / recipe_quantity rcp)) (recipe_materials rcp)
            \<and> node_total_cost node = sum_list (map node_total_cost (node_children node))
            \<and> node_unit_cost node = node_total_cost node / n
            \<and> bom_ok dm node
            \<and> (\<forall>t. bom_ok dm t \<and> node_name t = product \<and> node_quantity t = n \<longrightarrow>
                  node_total_cost t = node_total_cost node))
         \<and> get_recipe_tree 2 wood_dm ''Plank'' 3 0 =
             Inr (Node ''Plank'' 3 0 True [Node ''Wood'' 6 1 False [] (Some 10) 60 10] None 60 20)"
proof -
  from get_recipe_tree_ok [OF assms(1,2) assms(5) assms(4), of level] assms(3)
  obtain node where node: "get_recipe_tree frames dm product n level = Inr node"
    "node_name node = product" "node_quantity node = n" "node_is_recipe node" "bom_ok dm node"
    by auto
  have shape: "map (\<lambda>c. (node_name c, node_quantity c)) (node_children node) =
                map (\<lambda>(m, q). (m, q * n / recipe_quantity rcp)) (recipe_materials rcp)
      \<and> node_total_cost node = sum_list (map node_total_cost (node_children node))
      \<and> node_unit_cost node = node_total_cost node / n"
    using node(2-5) assms(3) by (cases node) simp
  have unique: "\<forall>t. bom_ok dm t \<and> node_name t = product \<and> node_quantity t = n \<longrightarrow>
      node_total_cost t = node_total_cost node"
  proof (intro allI impI)
    fix t
    assume h: "bom_ok dm t \<and> node_name t = product \<and> node_quantity t = n"
    then have "bom_ok dm t" "bom_ok dm node" "node_name t = node_name node"
      "node_quantity t = node_quantity node"
      using node(2,3,5) by simp_all
    then show "node_total_cost t = node_total_cost node" by (rule bom_ok_total_unique)
  qed
  have plank: "get_recipe_tree 2 wood_dm ''Plank'' 3 0 =
      Inr (Node ''Plank'' 3 0 True [Node ''Wood'' 6 1 False [] (Some 10) 60 10] None 60 20)"
    by (simp add: wood_dm_def numeral_2_eq_2 get_item_price_def)
  show ?thesis using node shape unique plank by blast
qed

theorem recipe_tree_cost_witness:
  "valid_catalog semi_dm \<and> acyclic_by semi_rank semi_dm
   \<and> recipes semi_dm ''Table'' \<noteq> None \<and> semi_rank ''Table'' < 3
   \<and> (\<exists>node. get_recipe_tree 3 semi_dm ''Table'' 1 0 = Inr node
          \<and> node_total_cost node = sum_list (map node_total_cost (node_children node))
          \<and> node_total_cost node = 80 \<and> node_unit_cost node = 80 \<and> bom_ok semi_dm node)
   \<and> get_recipe_tree 2 wood_dm ''Plank'' 3 0 =
       Inr (Node ''Plank'' 3 0 True [Node ''Wood'' 6 1 False [] (Some 10) 60 10] None 60 20)"
proof -
  have v: "valid_catalog semi_dm"
    by (auto simp: valid_catalog_def semi_dm_def split: if_splits)
  have a: "acyclic_by semi_rank semi_dm"
    by (auto simp: acyclic_by_def semi_dm_def semi_rank_def split: if_splits)
  have r: "recipes semi_dm ''Table'' =
      Some \<lparr> recipe_materials = [(''Plank'', 4)], recipe_quantity = 1,
             recipe_crafting_level = 1, recipe_type = ''basic'',
             recipe_is_exclusive = False \<rparr>"
    by (simp add: semi_dm_def)
  have n: "(1::rat) \<noteq> 0" by simp
  have k: "semi_rank ''Table'' < 3" by (simp add: semi_rank_def)
  from recipe_tree_cost [OF v a r n k, of 0]
  show ?thesis using v a r k semi_dm_Table by auto
qed

section \<open>Recipe cycles\<close>




















section \<open>Unset gold price in direct resolution\<close>

text \<open>
  Claim C4. A material whose gold price is unset and that has no override should make
  direct resolution fail. The code charges the sentinel: three units of \<open>Ore\<close>, whose gold
  price is \<open>-1\<close>, resolve to a leaf of unit cost \<open>-1\<close> and total cost \<open>-3\<close>.
\<close>

theorem unset_gold_price_is_charged:
  "get_recipe_tree 1 ore_dm ''Ore'' 3 0 =
     Inr (Node ''Ore'' 3 0 False [] (Some (- 1)) (- 3) (- 1))"
  by (simp add: ore_dm_def get_item_price_def)

section \<open>Demand aggregation is additive\<close>

lemma amount_merge_into: "amount (merge_into base sub) k = amount base k + amount sub k"
  by (simp add: amount_def merge_into_def split: option.splits)

lemma merge_into_assoc: "merge_into (merge_into a b) c = merge_into a (merge_into b c)"
  by (rule ext) (simp add: merge_into_def split: option.splits)

lemma merge_into_empty_left: "merge_into Map.empty t = t"
  by (rule ext) (simp add: merge_into_def split: option.splits)

lemma merge_into_empty_right: "merge_into t Map.empty = t"
  by (rule ext) (simp add: merge_into_def)

lemma scale_empty: "scale c Map.empty = Map.empty"
  by (rule ext) (simp add: scale_def)

lemma scale_merge_into: "scale c (merge_into a b) = merge_into (scale c a) (scale c b)"
  by (rule ext) (simp add: scale_def merge_into_def distrib_left split: option.splits)

lemma scale_one: "scale 1 d = d"
  by (rule ext) (simp add: scale_def option.map_ident)

lemma merge_into_scale: "merge_into (scale a d) (scale b d) = scale (a + b) d"
  by (rule ext) (simp add: scale_def merge_into_def distrib_right split: option.splits)

lemma scale_singleton: "scale c (Map.empty(k \<mapsto> v)) = Map.empty(k \<mapsto> c * v)"
  by (rule ext) (simp add: scale_def)

text \<open>Scaling the requested quantity scales the result and changes no failure.\<close>

lemma for_base_materials_scale:
  assumes "\<And>m qq. resolve m (c * qq) = map_sum id (scale c) (resolve m qq)"
  shows "for_base_materials resolve (c * q) rq ms (scale c base) =
           map_sum id (scale c) (for_base_materials resolve q rq ms base)"
proof (induction ms arbitrary: base)
  case Nil
  then show ?case by simp
next
  case (Cons a ms)
  obtain m mq where a: "a = (m, mq)" by (cases a)
  have arg: "mq * (c * q) / rq = c * (mq * q / rq)" by simp
  have step: "resolve m (mq * (c * q) / rq) = map_sum id (scale c) (resolve m (mq * q / rq))"
    unfolding arg by (rule assms)
  show ?case
  proof (cases "resolve m (mq * q / rq)")
    case (Inl e)
    show ?thesis unfolding a for_base_materials.simps step Inl by simp
  next
    case (Inr sub)
    show ?thesis unfolding a for_base_materials.simps step Inr
      using Cons.IH [of "merge_into base sub"] by (simp add: scale_merge_into)
  qed
qed

lemma get_base_materials_scale:
  "get_base_materials frames dm x (c * q) =
     map_sum id (scale c) (get_base_materials frames dm x q)"
proof (induction frames arbitrary: x q)
  case 0
  then show ?case by simp
next
  case (Suc frames)
  show ?case
  proof (cases "recipes dm x")
    case None
    then show ?thesis by (simp add: scale_singleton)
  next
    case (Some rcp)
    have "for_base_materials (\<lambda>m qq. get_base_materials frames dm m qq) (c * q)
            (recipe_quantity rcp) (recipe_materials rcp) (scale c Map.empty) =
          map_sum id (scale c) (for_base_materials (\<lambda>m qq. get_base_materials frames dm m qq) q
            (recipe_quantity rcp) (recipe_materials rcp) Map.empty)"
      by (rule for_base_materials_scale) (rule Suc.IH)
    then show ?thesis using Some by (simp add: scale_empty id_def)
  qed
qed

lemma get_base_materials_unit:
  "get_base_materials frames dm x q = map_sum id (scale q) (get_base_materials frames dm x 1)"
  using get_base_materials_scale [of frames dm x q 1] by simp

lemma get_base_materials_add:
  assumes "get_base_materials frames dm x q1 = Inr r1"
    and "get_base_materials frames dm x q2 = Inr r2"
  shows "get_base_materials frames dm x (q1 + q2) = Inr (merge_into r1 r2)"
proof -
  obtain u where u: "get_base_materials frames dm x 1 = Inr u"
    using assms(1) get_base_materials_unit [of frames dm x q1]
    by (cases "get_base_materials frames dm x 1") auto
  have "r1 = scale q1 u" "r2 = scale q2 u"
    using assms u get_base_materials_unit [of frames dm x q1]
      get_base_materials_unit [of frames dm x q2] by auto
  then show ?thesis
    using u get_base_materials_unit [of frames dm x "q1 + q2"] by (simp add: merge_into_scale)
qed

lemma get_total_materials_from_init:
  "get_total_materials_from frames dm basket init =
     map_sum id (merge_into init) (get_total_materials_from frames dm basket Map.empty)"
proof (induction basket arbitrary: init)
  case Nil
  then show ?case by (simp add: merge_into_empty_right)
next
  case (Cons a basket)
  obtain x q where a: "a = (x, q)" by (cases a)
  show ?case
  proof (cases "get_base_materials frames dm x q")
    case (Inl e)
    then show ?thesis using a by simp
  next
    case (Inr m)
    show ?thesis
      using a Inr Cons.IH [of "merge_into init m"] Cons.IH [of "merge_into Map.empty m"]
      by (cases "get_total_materials_from frames dm basket Map.empty")
         (simp_all add: merge_into_assoc merge_into_empty_left)
  qed
qed

lemma get_total_materials_from_append:
  "get_total_materials_from frames dm (b1 @ b2) init =
     (case get_total_materials_from frames dm b1 init of
        Inl e \<Rightarrow> Inl e
      | Inr t \<Rightarrow> get_total_materials_from frames dm b2 t)"
proof (induction b1 arbitrary: init)
  case Nil
  then show ?case by simp
next
  case (Cons a b1)
  obtain x q where a: "a = (x, q)" by (cases a)
  show ?case using a Cons.IH by (simp split: sum.splits)
qed

lemma get_total_materials_append:
  assumes "get_total_materials frames dm b1 = Inr t1"
    and "get_total_materials frames dm b2 = Inr t2"
  shows "get_total_materials frames dm (b1 @ b2) = Inr (merge_into t1 t2)"
  using assms get_total_materials_from_init [of frames dm b2 t1]
  by (simp add: get_total_materials_def get_total_materials_from_append)

lemma get_total_materials_single:
  "get_total_materials frames dm [(x, q)] = get_base_materials frames dm x q"
  by (simp add: get_total_materials_def merge_into_empty_left split: sum.splits)

lemma for_base_materials_paths:
  assumes "for_base_materials resolve q rq ms base = Inr r"
  shows "amount r k =
           amount base k + (\<Sum>(m, mq) \<leftarrow> ms. amount (projr (resolve m (mq * q / rq))) k)"
  using assms
proof (induction ms arbitrary: base)
  case Nil
  then show ?case by simp
next
  case (Cons a ms)
  obtain m mq where a: "a = (m, mq)" by (cases a)
  from Cons.prems a obtain sub where
    sub: "resolve m (mq * q / rq) = Inr sub"
    and rest: "for_base_materials resolve q rq ms (merge_into base sub) = Inr r"
    by (auto split: if_splits sum.splits)
  show ?case using Cons.IH [OF rest] a sub by (simp add: amount_merge_into)
qed

text \<open>
  Claim C9. Demand aggregation is additive. Across basket entries: the aggregate of two
  baskets put end to end is the entrywise sum of their aggregates. In the quantity: the
  aggregate of \<open>[(P, q1 + q2)]\<close> is the entrywise sum of those of \<open>[(P, q1)]\<close> and
  \<open>[(P, q2)]\<close>, so the aggregate of \<open>[(P, 2)]\<close> is twice that of \<open>[(P, 1)]\<close>. Across
  paths: the quantity a recipe contributes to a leaf material is the sum, over the
  materials of the recipe, of what each contributes. Whenever the parts aggregate, so
  does the whole.
\<close>

theorem aggregation_additive:
  "(get_total_materials frames dm b1 = Inr t1 \<and> get_total_materials frames dm b2 = Inr t2 \<longrightarrow>
      (\<exists>t. get_total_materials frames dm (b1 @ b2) = Inr t \<and> t = merge_into t1 t2
          \<and> (\<forall>k. amount t k = amount t1 k + amount t2 k)))
   \<and> (get_total_materials frames dm [(P, q1)] = Inr u1
        \<and> get_total_materials frames dm [(P, q2)] = Inr u2 \<longrightarrow>
      (\<exists>u. get_total_materials frames dm [(P, q1 + q2)] = Inr u \<and> u = merge_into u1 u2
          \<and> (\<forall>k. amount u k = amount u1 k + amount u2 k)))
   \<and> (get_total_materials frames dm [(P, 1)] = Inr v1 \<longrightarrow>
      (\<exists>v. get_total_materials frames dm [(P, 2)] = Inr v \<and> v = merge_into v1 v1
          \<and> (\<forall>k. amount v k = amount v1 k + amount v1 k)))
   \<and> (recipes dm P = Some rcp \<and> get_base_materials (Suc frames) dm P q = Inr r \<longrightarrow>
      (\<forall>k. amount r k =
         (\<Sum>(m, mq) \<leftarrow> recipe_materials rcp.
            amount (projr (get_base_materials frames dm m (mq * q / recipe_quantity rcp))) k)))"
proof -
  have entries: "\<exists>t. get_total_materials frames dm (b1 @ b2) = Inr t \<and> t = merge_into t1 t2
          \<and> (\<forall>k. amount t k = amount t1 k + amount t2 k)"
    if "get_total_materials frames dm b1 = Inr t1" "get_total_materials frames dm b2 = Inr t2"
    using get_total_materials_append [OF that] by (simp add: amount_merge_into)
  have quantities: "\<exists>u. get_total_materials frames dm [(P, a + b)] = Inr u \<and> u = merge_into ua ub
          \<and> (\<forall>k. amount u k = amount ua k + amount ub k)"
    if "get_total_materials frames dm [(P, a)] = Inr ua"
       "get_total_materials frames dm [(P, b)] = Inr ub" for a b ua ub
    using get_base_materials_add [of frames dm P a ua b ub] that
    by (simp add: get_total_materials_single amount_merge_into)
  have double: "\<exists>v. get_total_materials frames dm [(P, 2)] = Inr v \<and> v = merge_into v1 v1
          \<and> (\<forall>k. amount v k = amount v1 k + amount v1 k)"
    if "get_total_materials frames dm [(P, 1)] = Inr v1"
    using quantities [OF that that] by simp
  have paths: "\<forall>k. amount r k =
         (\<Sum>(m, mq) \<leftarrow> recipe_materials rcp.
            amount (projr (get_base_materials frames dm m (mq * q / recipe_quantity rcp))) k)"
    if "recipes dm P = Some rcp" "get_base_materials (Suc frames) dm P q = Inr r"
  proof -
    from that have "for_base_materials (\<lambda>m qq. get_base_materials frames dm m qq) q
        (recipe_quantity rcp) (recipe_materials rcp) Map.empty = Inr r" by simp
    from for_base_materials_paths [OF this] show ?thesis by (simp add: amount_def)
  qed
  show ?thesis using entries quantities double paths by blast
qed

lemma table_dm_Table: "get_total_materials 3 table_dm [(''Table'', 1)] = Inr [''Wood'' \<mapsto> 9]"
  by (simp add: get_total_materials_def table_dm_def numeral_3_eq_3 merge_into_def fun_eq_iff)

lemma table_dm_Plank: "get_total_materials 3 table_dm [(''Plank'', 1)] = Inr [''Wood'' \<mapsto> 2]"
  by (simp add: get_total_materials_def table_dm_def numeral_3_eq_3 merge_into_def fun_eq_iff)

theorem aggregation_additive_witness:
  "get_total_materials 3 table_dm [(''Table'', 1)] = Inr [''Wood'' \<mapsto> 9]
   \<and> get_total_materials 3 table_dm [(''Plank'', 1)] = Inr [''Wood'' \<mapsto> 2]
   \<and> (\<exists>t. get_total_materials 3 table_dm [(''Table'', 1), (''Plank'', 1)] = Inr t
          \<and> amount t ''Wood'' = 11)
   \<and> (\<exists>v. get_total_materials 3 table_dm [(''Table'', 2)] = Inr v \<and> amount v ''Wood'' = 18)
   \<and> (\<exists>r. get_base_materials 3 table_dm ''Table'' 1 = Inr r \<and> amount r ''Wood'' = 8 + 1)"
proof -
  let ?rcp = "\<lparr> recipe_materials = [(''Plank'', 4), (''Wood'', 1)], recipe_quantity = 1,
                 recipe_crafting_level = 1, recipe_type = ''basic'',
                 recipe_is_exclusive = False \<rparr>"
  have rcp: "recipes table_dm ''Table'' = Some ?rcp" by (simp add: table_dm_def)
  have gbm: "get_base_materials (Suc 2) table_dm ''Table'' 1 = Inr [''Wood'' \<mapsto> 9]"
    using table_dm_Table by (simp add: get_total_materials_single numeral_3_eq_3)
  have "amount [''Wood'' \<mapsto> 9::rat] ''Wood'' = 9" "amount [''Wood'' \<mapsto> 2::rat] ''Wood'' = 2"
    by (simp_all add: amount_def)
  with aggregation_additive [of 3 table_dm "[(''Table'', 1)]" "[''Wood'' \<mapsto> 9]"
      "[(''Plank'', 1)]" "[''Wood'' \<mapsto> 2]" "''Table''" 1 "[''Wood'' \<mapsto> 9]" 1
      "[''Wood'' \<mapsto> 9]" "[''Wood'' \<mapsto> 9]" ?rcp 1 "[''Wood'' \<mapsto> 9]"]
    aggregation_additive [of 2 table_dm "[(''Table'', 1)]" "[''Wood'' \<mapsto> 9]"
      "[(''Plank'', 1)]" "[''Wood'' \<mapsto> 2]" "''Table''" 1 "[''Wood'' \<mapsto> 9]" 1
      "[''Wood'' \<mapsto> 9]" "[''Wood'' \<mapsto> 9]" ?rcp 1 "[''Wood'' \<mapsto> 9]"]
    table_dm_Table table_dm_Plank rcp gbm
  show ?thesis by (simp add: numeral_3_eq_3)
qed

section \<open>Invariants of curve expansion\<close>





lemma round_quantity_nonneg: "0 \<le> q \<Longrightarrow> 0 \<le> round_quantity q"
proof -
  assume q: "0 \<le> q"
  then have f: "0 \<le> \<lfloor>q\<rfloor>" by simp
  have "0 \<le> py_round q" using f by (simp add: py_round_def Let_def)
  moreover have "0 \<le> \<lceil>q\<rceil>" using q by (simp add: ceiling_le_iff le_ceiling_iff)
  ultimately show ?thesis by (simp add: round_quantity_def Let_def)
qed

lemma units_nonneg: "0 \<le> q \<Longrightarrow> (of_nat (units q) :: rat) = of_int (round_quantity q)"
  using round_quantity_nonneg [of q] by (simp add: units_def)







section \<open>Curve monotonicity\<close>



section \<open>The entries of a curve, by material\<close>

lemma emit_A_names:
  "map fst (snd (snd (emit_A n m tp gp st))) = map fst (snd (snd st)) @ replicate n m"
proof (induction n arbitrary: st)
  case 0
  then show ?case by simp
next
  case (Suc n)
  obtain tc gc acc where st: "st = (tc, gc, acc)" by (cases st)
  show ?case using Suc.IH by (simp add: st Let_def replicate_app_Cons_same)
qed

lemma loop_A_names:
  "map fst (snd (snd (loop_A A st))) =
     map fst (snd (snd st)) @ unit_names A"
proof (induction A arbitrary: st)
  case Nil
  then show ?case by simp
next
  case (Cons row A)
  obtain m q l tp gp where row: "row = (m, q, l, tp, gp)" by (cases row)
  show ?case using Cons.IH by (simp add: row emit_A_names units_def)
qed

lemma expand_A_names:
  "map fst (expand_A A) = unit_names A"
  using loop_A_names [of A] by (simp add: expand_A_def)

lemma emit_B_names:
  "map fst (snd (snd (snd (emit_B n m cp np gp st)))) =
     map fst (snd (snd (snd st))) @ replicate n m"
proof (induction n arbitrary: st)
  case 0
  then show ?case by simp
next
  case (Suc n)
  obtain cc nc gc acc where st: "st = (cc, nc, gc, acc)" by (cases st)
  show ?case using Suc.IH by (simp add: st Let_def replicate_app_Cons_same)
qed

lemma loop_B_names:
  "map fst (snd (snd (snd (loop_B B st)))) =
     map fst (snd (snd (snd st))) @ unit_names B"
proof (induction B arbitrary: st)
  case Nil
  then show ?case by simp
next
  case (Cons row B)
  obtain m q l cp np gp where row: "row = (m, q, l, (cp, np), gp)" by (cases row) auto
  show ?case using Cons.IH by (simp add: row emit_B_names units_def)
qed

lemma expand_B_names:
  "map fst (expand_B B) = unit_names B"
  using loop_B_names [of B] by (simp add: expand_B_def)

lemma count_list_replicate: "count_list (replicate n x) y = (if x = y then n else 0)"
  by (induction n) auto

text \<open>How often a name occurs among the unit entries of rows with distinct names.\<close>

lemma count_units_absent:
  "k \<notin> fst ` set R \<Longrightarrow>
   count_list (unit_names R) k = 0"
  by (induction R) (auto simp: count_list_0_iff)

lemma count_units:
  assumes "distinct (map fst R)" and "(k, q, l, p, gp) \<in> set R"
  shows "count_list (unit_names R) k = units q"
  using assms
proof (induction R)
  case Nil
  then show ?case by simp
next
  case (Cons row R)
  obtain m' q' l' p' gp' where row: "row = (m', q', l', p', gp')" by (cases row)
  show ?case
  proof (cases "(k, q, l, p, gp) = row")
    case True
    from True have rk: "row = (k, q, l, p, gp)" by simp
    from Cons.prems(1) have "k \<notin> fst ` set R" unfolding rk by simp
    from count_units_absent [OF this] show ?thesis
      unfolding rk by (simp add: count_list_replicate)
  next
    case False
    then have mem: "(k, q, l, p, gp) \<in> set R" using Cons.prems(2) by auto
    then have "k \<in> fst ` set R" by force
    then have "k \<noteq> m'" using Cons.prems(1) row by auto
    then show ?thesis using Cons.IH mem Cons.prems(1)
      by (auto simp: row count_list_replicate)
  qed
qed

lemma names_subset:
  "set (unit_names R) \<subseteq> fst ` set R"
  by (induction R) (force split: if_splits)+

lemma zero_buckets_dom: "dom (zero_buckets R) = fst ` set R"
  unfolding zero_buckets_def by (force simp: dom_map_of_conv_image_fst)

lemma zero_buckets_amount: "amount (zero_buckets R) k = 0"
  unfolding zero_buckets_def by (induction R) (auto simp: amount_def split: option.splits)

lemma zero_buckets_at: "k \<in> fst ` set R \<Longrightarrow> zero_buckets R k = Some 0"
  unfolding zero_buckets_def by (induction R) force+

lemma increment_ok:
  "k \<in> dom d \<Longrightarrow> \<exists>d'. increment d k = Inr d' \<and> dom d' = dom d
      \<and> (\<forall>j. amount d' j = amount d j + (if j = k then 1 else 0))"
  by (auto simp: increment_def amount_def)

section \<open>Walking a curve under a cap\<close>

lemma walk_A_partition:
  assumes "set (map fst es) \<subseteq> dom A1" and "dom A2 = dom A1" and "dom A3 = dom A1"
  shows "\<exists>r. walk_A cap es (A1, A2, A3, t) = Inr r
           \<and> dom (fst r) = dom A1 \<and> dom (fst (snd r)) = dom A1
           \<and> dom (fst (snd (snd r))) = dom A1
           \<and> (\<forall>k. amount (fst r) k + amount (fst (snd r)) k + amount (fst (snd (snd r))) k =
                  amount A1 k + amount A2 k + amount A3 k + of_nat (count_list (map fst es) k))"
  using assms
proof (induction es arbitrary: A1 A2 A3 t)
  case Nil
  then show ?case by simp
next
  case (Cons e es)
  obtain m tc gc where e: "e = (m, tc, gc)" by (cases e)
  have m: "m \<in> dom A1" "m \<in> dom A2" "m \<in> dom A3" using Cons.prems e by auto
  have rest: "set (map fst es) \<subseteq> dom A1" using Cons.prems(1) by auto
  consider (acq) "tc \<le> of_int cap"
    | (gold) "\<not> tc \<le> of_int cap" "gc \<noteq> -1"
    | (unav) "\<not> tc \<le> of_int cap" "gc = -1" by blast
  then show ?case
  proof cases
    case acq
    from increment_ok [OF m(1)] obtain d where d: "increment A1 m = Inr d" "dom d = dom A1"
      "\<forall>j. amount d j = amount A1 j + (if j = m then 1 else 0)" by blast
    from Cons.IH [of d A2 A3 "(Some m, tc, gc)"] rest d(2) Cons.prems(2,3)
    obtain r where
      w: "walk_A cap es (d, A2, A3, (Some m, tc, gc)) = Inr r"
      and doms: "dom (fst r) = dom d" "dom (fst (snd r)) = dom d"
        "dom (fst (snd (snd r))) = dom d"
      and sums: "\<forall>k. amount (fst r) k + amount (fst (snd r)) k + amount (fst (snd (snd r))) k =
                  amount d k + amount A2 k + amount A3 k + of_nat (count_list (map fst es) k)"
      by auto
    have "walk_A cap (e # es) (A1, A2, A3, t) = Inr r" using acq d(1) w by (simp add: e)
    then show ?thesis using d(2,3) doms sums by (simp add: e)
  next
    case gold
    from increment_ok [OF m(2)] obtain d where d: "increment A2 m = Inr d" "dom d = dom A2"
      "\<forall>j. amount d j = amount A2 j + (if j = m then 1 else 0)" by blast
    from Cons.IH [of A1 d A3 t] rest d(2) Cons.prems(2,3)
    obtain r where
      w: "walk_A cap es (A1, d, A3, t) = Inr r"
      and doms: "dom (fst r) = dom A1" "dom (fst (snd r)) = dom A1"
        "dom (fst (snd (snd r))) = dom A1"
      and sums: "\<forall>k. amount (fst r) k + amount (fst (snd r)) k + amount (fst (snd (snd r))) k =
                  amount A1 k + amount d k + amount A3 k + of_nat (count_list (map fst es) k)"
      by auto
    have "walk_A cap (e # es) (A1, A2, A3, t) = Inr r" using gold d(1) w by (simp add: e)
    then show ?thesis using d(2,3) doms sums by (simp add: e)
  next
    case unav
    from increment_ok [OF m(3)] obtain d where d: "increment A3 m = Inr d" "dom d = dom A3"
      "\<forall>j. amount d j = amount A3 j + (if j = m then 1 else 0)" by blast
    from Cons.IH [of A1 A2 d t] rest d(2) Cons.prems(2,3)
    obtain r where
      w: "walk_A cap es (A1, A2, d, t) = Inr r"
      and doms: "dom (fst r) = dom A1" "dom (fst (snd r)) = dom A1"
        "dom (fst (snd (snd r))) = dom A1"
      and sums: "\<forall>k. amount (fst r) k + amount (fst (snd r)) k + amount (fst (snd (snd r))) k =
                  amount A1 k + amount A2 k + amount d k + of_nat (count_list (map fst es) k)"
      by auto
    have "walk_A cap (e # es) (A1, A2, A3, t) = Inr r" using unav d(1) w by (simp add: e)
    then show ?thesis using d(2,3) doms sums by (simp add: e)
  qed
qed

lemma amount_Some: "k \<in> dom d \<Longrightarrow> d k = Some (amount d k)"
  by (auto simp: amount_def)

lemma finite_cap_A:
  assumes "distinct (map fst A)" and "(m, q, l, tp, gp) \<in> set A" and "0 \<le> q"
    and "max_tickets \<noteq> -1"
  shows "\<exists>A1 A2 A3 t a1 a2 a3.
           calculate_A_materials A (expand_A A) max_tickets = Inr (A1, A2, A3, t)
           \<and> A1 m = Some a1 \<and> A2 m = Some a2 \<and> A3 m = Some a3
           \<and> a1 + a2 + a3 = of_int (round_quantity q)"
proof -
  let ?Z = "zero_buckets A"
  have dom: "dom ?Z = fst ` set A" by (rule zero_buckets_dom)
  have sub: "set (map fst (expand_A A)) \<subseteq> dom ?Z"
    unfolding dom expand_A_names by (rule names_subset)
  from walk_A_partition [OF sub refl refl, of max_tickets "(None, 0, 0)"]
  obtain r where
    w: "walk_A max_tickets (expand_A A) (?Z, ?Z, ?Z, (None, 0, 0)) = Inr r"
    and doms: "dom (fst r) = dom ?Z" "dom (fst (snd r)) = dom ?Z"
      "dom (fst (snd (snd r))) = dom ?Z"
    and sums: "\<forall>k. amount (fst r) k + amount (fst (snd r)) k + amount (fst (snd (snd r))) k =
        amount ?Z k + amount ?Z k + amount ?Z k + of_nat (count_list (map fst (expand_A A)) k)"
    by blast
  obtain A1 A2 A3 t where r: "r = (A1, A2, A3, t)" by (cases r)
  have mem: "m \<in> fst ` set A" using assms(2) by force
  have "amount A1 m + amount A2 m + amount A3 m = of_nat (units q)"
    using sums count_units [OF assms(1,2)] by (simp add: r zero_buckets_amount expand_A_names)
  then have total: "amount A1 m + amount A2 m + amount A3 m = of_int (round_quantity q)"
    using units_nonneg [OF assms(3)] by simp
  have "m \<in> dom A1" "m \<in> dom A2" "m \<in> dom A3" using doms dom mem by (simp_all add: r)
  then have "A1 m = Some (amount A1 m)" "A2 m = Some (amount A2 m)"
    "A3 m = Some (amount A3 m)"
    by (simp_all add: amount_Some)
  moreover have "calculate_A_materials A (expand_A A) max_tickets = Inr (A1, A2, A3, t)"
    using w assms(4) by (simp add: calculate_A_materials_def r)
  ultimately show ?thesis using total by blast
qed

lemma set_all_untouched:
  "k \<notin> fst ` set R \<Longrightarrow> set_all d R k = d k"
  by (induction R arbitrary: d) auto

lemma set_all_at:
  assumes "distinct (map fst R)" and "(k, q, l, p, gp) \<in> set R"
  shows "set_all d R k = Some q"
  using assms
proof (induction R arbitrary: d)
  case Nil
  then show ?case by simp
next
  case (Cons row R)
  obtain m' q' l' p' gp' where row: "row = (m', q', l', p', gp')" by (cases row)
  show ?case
  proof (cases "(k, q, l, p, gp) = row")
    case True
    from True have rk: "row = (k, q, l, p, gp)" by simp
    from Cons.prems(1) have "k \<notin> fst ` set R" unfolding rk by simp
    from set_all_untouched [OF this] show ?thesis unfolding rk by simp
  next
    case False
    then have "(k, q, l, p, gp) \<in> set R" using Cons.prems(2) by auto
    then show ?thesis using Cons.IH Cons.prems(1) by (simp add: row)
  qed
qed

lemma unlimited_A:
  assumes "distinct (map fst A)" and "(m, q, l, tp, gp) \<in> set A"
  shows "\<exists>A1 A2 A3 t.
           calculate_A_materials A (expand_A A) (-1) = Inr (A1, A2, A3, t)
           \<and> A1 m = Some q \<and> A2 m = Some 0 \<and> A3 m = Some 0"
proof -
  have mem: "m \<in> fst ` set A" using assms(2) by force
  obtain t where "calculate_A_materials A (expand_A A) (-1) =
      Inr (set_all (zero_buckets A) A, zero_buckets A, zero_buckets A, t)"
    by (simp add: calculate_A_materials_def Let_def)
  then show ?thesis
    using set_all_at [OF assms, of "zero_buckets A"] zero_buckets_at [OF mem] by blast
qed

lemma walk_B_partition:
  assumes "set (map fst es) \<subseteq> dom B1" and "dom B2 = dom B1" and "dom B3 = dom B1"
  shows "\<exists>r. walk_B cap_c cap_n es (B1, B2, B3, t) = Inr r
           \<and> dom (fst r) = dom B1 \<and> dom (fst (snd r)) = dom B1
           \<and> dom (fst (snd (snd r))) = dom B1
           \<and> (\<forall>k. amount (fst r) k + amount (fst (snd r)) k + amount (fst (snd (snd r))) k =
                  amount B1 k + amount B2 k + amount B3 k + of_nat (count_list (map fst es) k))"
  using assms
proof (induction es arbitrary: B1 B2 B3 t)
  case Nil
  then show ?case by simp
next
  case (Cons e es)
  obtain m cc nc gc where e: "e = (m, cc, nc, gc)" by (cases e)
  let ?ok = "(cap_c = -1 \<or> cc \<le> of_int cap_c) \<and> (cap_n = -1 \<or> nc \<le> of_int cap_n)"
  have m: "m \<in> dom B1" "m \<in> dom B2" "m \<in> dom B3" using Cons.prems e by auto
  have rest: "set (map fst es) \<subseteq> dom B1" using Cons.prems(1) by auto
  consider (acq) "?ok" | (gold) "\<not> ?ok" "gc \<noteq> -1" | (unav) "\<not> ?ok" "gc = -1" by blast
  then show ?case
  proof cases
    case acq
    from increment_ok [OF m(1)] obtain d where d: "increment B1 m = Inr d" "dom d = dom B1"
      "\<forall>j. amount d j = amount B1 j + (if j = m then 1 else 0)" by blast
    from Cons.IH [of d B2 B3 "(Some m, cc, nc, gc)"] rest d(2) Cons.prems(2,3)
    obtain r where
      w: "walk_B cap_c cap_n es (d, B2, B3, (Some m, cc, nc, gc)) = Inr r"
      and doms: "dom (fst r) = dom d" "dom (fst (snd r)) = dom d"
        "dom (fst (snd (snd r))) = dom d"
      and sums: "\<forall>k. amount (fst r) k + amount (fst (snd r)) k + amount (fst (snd (snd r))) k =
                  amount d k + amount B2 k + amount B3 k + of_nat (count_list (map fst es) k)"
      by auto
    have "walk_B cap_c cap_n (e # es) (B1, B2, B3, t) = Inr r"
      using acq d(1) w unfolding e by simp
    then show ?thesis using d(2,3) doms sums by (simp add: e)
  next
    case gold
    from increment_ok [OF m(2)] obtain d where d: "increment B2 m = Inr d" "dom d = dom B2"
      "\<forall>j. amount d j = amount B2 j + (if j = m then 1 else 0)" by blast
    from Cons.IH [of B1 d B3 t] rest d(2) Cons.prems(2,3)
    obtain r where
      w: "walk_B cap_c cap_n es (B1, d, B3, t) = Inr r"
      and doms: "dom (fst r) = dom B1" "dom (fst (snd r)) = dom B1"
        "dom (fst (snd (snd r))) = dom B1"
      and sums: "\<forall>k. amount (fst r) k + amount (fst (snd r)) k + amount (fst (snd (snd r))) k =
                  amount B1 k + amount d k + amount B3 k + of_nat (count_list (map fst es) k)"
      by auto
    have "walk_B cap_c cap_n (e # es) (B1, B2, B3, t) = Inr r"
      using gold d(1) w unfolding e by auto
    then show ?thesis using d(2,3) doms sums by (simp add: e)
  next
    case unav
    from increment_ok [OF m(3)] obtain d where d: "increment B3 m = Inr d" "dom d = dom B3"
      "\<forall>j. amount d j = amount B3 j + (if j = m then 1 else 0)" by blast
    from Cons.IH [of B1 B2 d t] rest d(2) Cons.prems(2,3)
    obtain r where
      w: "walk_B cap_c cap_n es (B1, B2, d, t) = Inr r"
      and doms: "dom (fst r) = dom B1" "dom (fst (snd r)) = dom B1"
        "dom (fst (snd (snd r))) = dom B1"
      and sums: "\<forall>k. amount (fst r) k + amount (fst (snd r)) k + amount (fst (snd (snd r))) k =
                  amount B1 k + amount B2 k + amount d k + of_nat (count_list (map fst es) k)"
      by auto
    have "walk_B cap_c cap_n (e # es) (B1, B2, B3, t) = Inr r"
      using unav d(1) w unfolding e by auto
    then show ?thesis using d(2,3) doms sums by (simp add: e)
  qed
qed

lemma finite_cap_B:
  assumes "distinct (map fst B)" and "(m, q, l, cp, gp) \<in> set B" and "0 \<le> q"
    and "\<not> (max_camp = -1 \<and> max_new_dollar = -1)"
  shows "\<exists>B1 B2 B3 t b1 b2 b3.
           calculate_B_materials B (expand_B B) max_camp max_new_dollar = Inr (B1, B2, B3, t)
           \<and> B1 m = Some b1 \<and> B2 m = Some b2 \<and> B3 m = Some b3
           \<and> b1 + b2 + b3 = of_int (round_quantity q)"
proof -
  let ?Z = "zero_buckets B"
  have dom: "dom ?Z = fst ` set B" by (rule zero_buckets_dom)
  have sub: "set (map fst (expand_B B)) \<subseteq> dom ?Z"
    unfolding dom expand_B_names by (rule names_subset)
  from walk_B_partition [OF sub refl refl, of max_camp max_new_dollar "(None, 0, 0, 0)"]
  obtain r where
    w: "walk_B max_camp max_new_dollar (expand_B B) (?Z, ?Z, ?Z, (None, 0, 0, 0)) = Inr r"
    and doms: "dom (fst r) = dom ?Z" "dom (fst (snd r)) = dom ?Z"
      "dom (fst (snd (snd r))) = dom ?Z"
    and sums: "\<forall>k. amount (fst r) k + amount (fst (snd r)) k + amount (fst (snd (snd r))) k =
        amount ?Z k + amount ?Z k + amount ?Z k + of_nat (count_list (map fst (expand_B B)) k)"
    by blast
  obtain B1 B2 B3 t where r: "r = (B1, B2, B3, t)" by (cases r)
  have mem: "m \<in> fst ` set B" using assms(2) by force
  have "amount B1 m + amount B2 m + amount B3 m = of_nat (units q)"
    using sums count_units [OF assms(1,2)] by (simp add: r zero_buckets_amount expand_B_names)
  then have total: "amount B1 m + amount B2 m + amount B3 m = of_int (round_quantity q)"
    using units_nonneg [OF assms(3)] by simp
  have "m \<in> dom B1" "m \<in> dom B2" "m \<in> dom B3" using doms dom mem by (simp_all add: r)
  then have "B1 m = Some (amount B1 m)" "B2 m = Some (amount B2 m)"
    "B3 m = Some (amount B3 m)"
    by (simp_all add: amount_Some)
  moreover have "calculate_B_materials B (expand_B B) max_camp max_new_dollar =
      Inr (B1, B2, B3, t)"
    using w assms(4) by (auto simp: calculate_B_materials_def r)
  ultimately show ?thesis using total by blast
qed

lemma unlimited_B:
  assumes "distinct (map fst B)" and "(m, q, l, cp, gp) \<in> set B"
  shows "\<exists>B1 B2 B3 t.
           calculate_B_materials B (expand_B B) (-1) (-1) = Inr (B1, B2, B3, t)
           \<and> B1 m = Some q \<and> B2 m = Some 0 \<and> B3 m = Some 0"
proof -
  have mem: "m \<in> fst ` set B" using assms(2) by force
  obtain t where "calculate_B_materials B (expand_B B) (-1) (-1) =
      Inr (set_all (zero_buckets B) B, zero_buckets B, zero_buckets B, t)"
    by (simp add: calculate_B_materials_def Let_def)
  then show ?thesis
    using set_all_at [OF assms, of "zero_buckets B"] zero_buckets_at [OF mem] by blast
qed

section \<open>The gold-only channel\<close>

lemma walk_C_result:
  assumes "list_all single_priced R" and "distinct (map fst R)"
  shows "\<exists>r. walk_C R (C2, C3, t) = Inr r
           \<and> (\<forall>k. k \<notin> fst ` set R \<longrightarrow> fst r k = C2 k \<and> fst (snd r) k = C3 k)
           \<and> (\<forall>m q l p gp. (m, q, l, Single p, gp) \<in> set R \<longrightarrow>
                 fst r m = (if p \<noteq> -1 then Some q else C2 m)
                 \<and> fst (snd r) m = (if p \<noteq> -1 then C3 m else Some q))"
  using assms
proof (induction R arbitrary: C2 C3 t)
  case Nil
  then show ?case by simp
next
  case (Cons row R)
  obtain m' q' l' cp' gp' where row: "row = (m', q', l', cp', gp')" by (cases row)
  from Cons.prems(1) row obtain p' where cp': "cp' = Single p'"
    by (cases cp') simp_all
  have single: "list_all single_priced R" and dist: "distinct (map fst R)"
    and fresh: "m' \<notin> fst ` set R"
    using Cons.prems row by simp_all
  let ?C2 = "if p' \<noteq> -1 then C2(m' \<mapsto> q') else C2"
  let ?C3 = "if p' \<noteq> -1 then C3 else C3(m' \<mapsto> q')"
  let ?t = "if p' \<noteq> -1 then t + q' * p' else t"
  have step: "walk_C (row # R) (C2, C3, t) = walk_C R (?C2, ?C3, ?t)"
    by (simp add: row cp')
  from Cons.IH [OF single dist, of ?C2 ?C3 ?t] obtain r where
    r: "walk_C R (?C2, ?C3, ?t) = Inr r"
    and out: "\<forall>k. k \<notin> fst ` set R \<longrightarrow> fst r k = ?C2 k \<and> fst (snd r) k = ?C3 k"
    and ins: "\<forall>m q l p gp. (m, q, l, Single p, gp) \<in> set R \<longrightarrow>
                 fst r m = (if p \<noteq> -1 then Some q else ?C2 m)
                 \<and> fst (snd r) m = (if p \<noteq> -1 then ?C3 m else Some q)"
    by blast
  have a: "\<forall>k. k \<notin> fst ` set (row # R) \<longrightarrow> fst r k = C2 k \<and> fst (snd r) k = C3 k"
  proof (intro allI impI)
    fix k assume "k \<notin> fst ` set (row # R)"
    then have "k \<noteq> m'" "k \<notin> fst ` set R" by (simp_all add: row)
    with out show "fst r k = C2 k \<and> fst (snd r) k = C3 k" by simp
  qed
  have b: "\<forall>m q l p gp. (m, q, l, Single p, gp) \<in> set (row # R) \<longrightarrow>
                 fst r m = (if p \<noteq> -1 then Some q else C2 m)
                 \<and> fst (snd r) m = (if p \<noteq> -1 then C3 m else Some q)"
  proof (intro allI impI)
    fix m q l p gp assume mem: "(m, q, l, Single p, gp) \<in> set (row # R)"
    show "fst r m = (if p \<noteq> -1 then Some q else C2 m)
          \<and> fst (snd r) m = (if p \<noteq> -1 then C3 m else Some q)"
    proof (cases "(m, q, l, Single p, gp) = row")
      case True
      then have eq: "m = m'" "q = q'" "p = p'" by (simp_all add: row cp')
      from out fresh have "fst r m' = ?C2 m'" "fst (snd r) m' = ?C3 m'" by simp_all
      then show ?thesis unfolding eq by simp
    next
      case False
      then have inR: "(m, q, l, Single p, gp) \<in> set R" using mem by simp
      then have "m \<in> fst ` set R" by force
      then have ne: "m \<noteq> m'" using fresh by blast
      from ins inR have "fst r m = (if p \<noteq> -1 then Some q else ?C2 m)"
        "fst (snd r) m = (if p \<noteq> -1 then ?C3 m else Some q)" by blast+
      then show ?thesis using ne by simp
    qed
  qed
  show ?case unfolding step using r a b by blast
qed

lemma gold_only_C:
  assumes "distinct (map fst C)" and "list_all single_priced C"
    and "(m, q, l, Single p, gp) \<in> set C"
  shows "\<exists>C2 C3 t. calculate_C_materials C = Inr (C2, C3, t)
           \<and> C2 m = Some (if p \<noteq> -1 then q else 0)
           \<and> C3 m = Some (if p \<noteq> -1 then 0 else q)"
proof -
  from walk_C_result [OF assms(2,1), of "zero_buckets C" "zero_buckets C" 0]
  obtain r where r: "walk_C C (zero_buckets C, zero_buckets C, 0) = Inr r"
    and ins: "\<forall>m q l p gp. (m, q, l, Single p, gp) \<in> set C \<longrightarrow>
                 fst r m = (if p \<noteq> -1 then Some q else zero_buckets C m)
                 \<and> fst (snd r) m = (if p \<noteq> -1 then zero_buckets C m else Some q)"
    by blast
  obtain C2 C3 t where rr: "r = (C2, C3, t)" by (cases r)
  have "m \<in> fst ` set C" using assms(3) by force
  then have z: "zero_buckets C m = Some 0" by (rule zero_buckets_at)
  from ins assms(3) have "fst r m = (if p \<noteq> -1 then Some q else zero_buckets C m)"
    "fst (snd r) m = (if p \<noteq> -1 then zero_buckets C m else Some q)" by blast+
  then have "C2 m = Some (if p \<noteq> -1 then q else 0)" "C3 m = Some (if p \<noteq> -1 then 0 else q)"
    by (simp_all add: rr z)
  moreover have "calculate_C_materials C = Inr (C2, C3, t)"
    using r by (simp add: calculate_C_materials_def rr)
  ultimately show ?thesis by blast
qed

text \<open>The rows \<open>prepare_materials_data\<close> builds keep the names of the aggregated demand
  and give the gold-only channel a number, the gold price, as channel price.\<close>

lemma prepared_rows:
  "prepare_materials_data d xs = Inr rows \<Longrightarrow>
   map fst rows = map fst xs
   \<and> (\<forall>(m, q, l, cp, gp) \<in> set rows. l = 3 \<longrightarrow> cp = Single gp)"
proof (induction xs arbitrary: rows)
  case Nil
  then show ?case by simp
next
  case (Cons x xs)
  obtain m q where x: "x = (m, q)" by (cases x)
  from Cons.prems x obtain it rows' where it: "d m = Some it"
    and rest: "prepare_materials_data d xs = Inr rows'"
    and rows: "rows = (m, q,
        (if item_ticket_price it \<noteq> -1 then 1
         else if item_camp_contribution it \<noteq> -1 then 2 else 3),
        (if item_ticket_price it \<noteq> -1 then Single (item_ticket_price it)
         else if item_camp_contribution it \<noteq> -1
           then Pair (item_camp_contribution it) (item_new_dollar it)
         else Single (item_price it)),
        item_price it) # rows'"
    by (auto simp: Let_def split: option.splits sum.splits if_splits)
  from Cons.IH [OF rest] show ?case unfolding rows x by simp
qed

lemma round_quantity_examples:
  "round_quantity (5 / 2) = 3" "round_quantity (3 / 2) = 2" "round_quantity 1 = 1"
  "round_quantity (9 / 10) = 1"
  by code_simp+

section \<open>The buckets partition the demand\<close>

text \<open>
  Claim C5, as amended. For rows with distinct material names and a row of non-negative
  quantity: under a finite ticket cap (for the camp channel, unless both caps are
  unlimited) the evaluation returns buckets in which the quantities of the material add up
  to its rounded demand; under the unlimited sentinel the Acquired bucket holds the raw
  demand and the other two hold zero. In the gold-only channel, whatever the caps, the
  raw demand is in GoldFallback when the material has a gold price and in Unavailable
  when it has none, and the other bucket holds zero.
\<close>

theorem buckets_partition_demand:
  "(distinct (map fst A) \<and> (m, q, l, tp, gp) \<in> set A \<and> 0 \<le> q \<longrightarrow>
      (max_tickets \<noteq> -1 \<longrightarrow>
         (\<exists>A1 A2 A3 t a1 a2 a3.
            calculate_A_materials A (expand_A A) max_tickets = Inr (A1, A2, A3, t)
            \<and> A1 m = Some a1 \<and> A2 m = Some a2 \<and> A3 m = Some a3
            \<and> a1 + a2 + a3 = of_int (round_quantity q)))
      \<and> (\<exists>A1 A2 A3 t.
            calculate_A_materials A (expand_A A) (-1) = Inr (A1, A2, A3, t)
            \<and> A1 m = Some q \<and> A2 m = Some 0 \<and> A3 m = Some 0))
   \<and> (distinct (map fst B) \<and> (m', q', l', cp, gp') \<in> set B \<and> 0 \<le> q' \<longrightarrow>
      (\<not> (max_camp = -1 \<and> max_new_dollar = -1) \<longrightarrow>
         (\<exists>B1 B2 B3 t b1 b2 b3.
            calculate_B_materials B (expand_B B) max_camp max_new_dollar = Inr (B1, B2, B3, t)
            \<and> B1 m' = Some b1 \<and> B2 m' = Some b2 \<and> B3 m' = Some b3
            \<and> b1 + b2 + b3 = of_int (round_quantity q')))
      \<and> (\<exists>B1 B2 B3 t.
            calculate_B_materials B (expand_B B) (-1) (-1) = Inr (B1, B2, B3, t)
            \<and> B1 m' = Some q' \<and> B2 m' = Some 0 \<and> B3 m' = Some 0))
   \<and> (distinct (map fst C) \<and> list_all single_priced C
        \<and> (m'', q'', l'', Single p, gp'') \<in> set C \<longrightarrow>
      (\<exists>C2 C3 t.
         calculate_C_materials C = Inr (C2, C3, t)
         \<and> C2 m'' = Some (if p \<noteq> -1 then q'' else 0)
         \<and> C3 m'' = Some (if p \<noteq> -1 then 0 else q'')))"
  using finite_cap_A [of A m q l tp gp max_tickets] unlimited_A [of A m q l tp gp]
    finite_cap_B [of B m' q' l' cp gp' max_camp max_new_dollar]
    unlimited_B [of B m' q' l' cp gp']
    gold_only_C [of C m'' q'' l'' p gp'']
  by blast

theorem buckets_partition_demand_witness:
  "(\<exists>A1 A2 A3 t a1 a2 a3.
      calculate_A_materials ore_rows (expand_A ore_rows) 7 = Inr (A1, A2, A3, t)
      \<and> A1 ''Ore'' = Some a1 \<and> A2 ''Ore'' = Some a2 \<and> A3 ''Ore'' = Some a3
      \<and> a1 + a2 + a3 = 3)
   \<and> (\<exists>A1 A2 A3 t.
      calculate_A_materials ore_rows (expand_A ore_rows) (- 1) = Inr (A1, A2, A3, t)
      \<and> A1 ''Ore'' = Some (5 / 2) \<and> A2 ''Ore'' = Some 0 \<and> A3 ''Ore'' = Some 0)
   \<and> (\<exists>B1 B2 B3 t b1 b2 b3.
      calculate_B_materials hemp_rows (expand_B hemp_rows) 8 (- 1) = Inr (B1, B2, B3, t)
      \<and> B1 ''Hemp'' = Some b1 \<and> B2 ''Hemp'' = Some b2 \<and> B3 ''Hemp'' = Some b3
      \<and> b1 + b2 + b3 = 2)
   \<and> (\<exists>B1 B2 B3 t.
      calculate_B_materials hemp_rows (expand_B hemp_rows) (- 1) (- 1) = Inr (B1, B2, B3, t)
      \<and> B1 ''Hemp'' = Some (3 / 2) \<and> B2 ''Hemp'' = Some 0 \<and> B3 ''Hemp'' = Some 0)
   \<and> (\<exists>C2 C3 t.
      calculate_C_materials gold_rows = Inr (C2, C3, t)
      \<and> C2 ''Moss'' = Some 0 \<and> C3 ''Moss'' = Some (7 / 2))"
proof -
  have a: "distinct (map fst ore_rows)" "(''Ore'', 5 / 2, 1, 5, 8) \<in> set ore_rows"
    "(0::rat) \<le> 5 / 2" "(7::int) \<noteq> - 1"
    by (simp_all add: ore_rows_def)
  have b: "distinct (map fst hemp_rows)" "(''Hemp'', 3 / 2, 2, (4, 7), 6) \<in> set hemp_rows"
    "(0::rat) \<le> 3 / 2" "\<not> ((8::int) = - 1 \<and> (- 1::int) = - 1)"
    by (simp_all add: hemp_rows_def)
  have c: "distinct (map fst gold_rows)" "list_all single_priced gold_rows"
    "(''Moss'', 7 / 2, 3, Single (- 1), - 1) \<in> set gold_rows"
    by (simp_all add: gold_rows_def)
  from buckets_partition_demand [of ore_rows "''Ore''" "5 / 2" 1 5 8 7
      hemp_rows "''Hemp''" "3 / 2" 2 "(4, 7)" 6 8 "- 1"
      gold_rows "''Moss''" "7 / 2" 3 "- 1" "- 1"] a b c
  show ?thesis by (simp add: round_quantity_examples)
qed

text \<open>With an unlimited ticket cap and a demand of 2.5, the three buckets add up to 2.5,
  not to the rounded demand 3; so do the buckets of a gold-only material of demand 2.5.\<close>

theorem unlimited_bucket_holds_raw_demand:
  "(\<exists>A1 A2 A3 t.
      calculate_A_materials ore_rows (expand_A ore_rows) (- 1) = Inr (A1, A2, A3, t)
      \<and> A1 ''Ore'' = Some (5 / 2) \<and> A2 ''Ore'' = Some 0 \<and> A3 ''Ore'' = Some 0)
   \<and> (\<exists>C2 C3 t.
      calculate_C_materials gold_rows = Inr (C2, C3, t)
      \<and> C2 ''Wood'' = Some (5 / 2) \<and> C3 ''Wood'' = Some 0)
   \<and> round_quantity (5 / 2) = 3
   \<and> (5 / 2 + 0 + 0 :: rat) \<noteq> of_int (round_quantity (5 / 2))"
proof -
  have a: "distinct (map fst ore_rows)" "(''Ore'', 5 / 2, 1, 5, 8) \<in> set ore_rows"
    by (simp_all add: ore_rows_def)
  have c: "distinct (map fst gold_rows)" "list_all single_priced gold_rows"
    "(''Wood'', 5 / 2, 3, Single 10, 10) \<in> set gold_rows"
    by (simp_all add: gold_rows_def)
  from unlimited_A [OF a] gold_only_C [OF c] show ?thesis
    by (simp add: round_quantity_examples)
qed

section \<open>Routing of the entries beyond the cap\<close>

lemma expand_A_no_gold_rows: "expand_A no_gold_rows = [(''Ore'', 5, 0)]"
  by code_simp

lemma expand_A_short_rows: "expand_A short_rows = [(''Ore'', 5, - 1)]"
  by code_simp

text \<open>
  Claim C3. An entry beyond the cap should go to GoldFallback when its material has a gold
  price and to Unavailable otherwise. The code tests the entry's running remaining gold
  cost against \<open>-1\<close> instead of the material's gold price. A basket of one \<open>Ore\<close>
  (ticket price 5, no gold price) aggregates, classifies and sorts to the single ticket
  row below; with a cap of 0 its unit lands in GoldFallback, because its entry carries
  remaining gold cost 0. A material with gold price 10 and demand 0.9 lands in
  Unavailable, because its entry carries remaining gold cost \<open>9 - 10 = -1\<close>.
\<close>

theorem fallback_routed_by_running_gold_cost:
  "get_total_materials 1 ore_dm [(''Ore'', 1)] = Inr [''Ore'' \<mapsto> 1]
   \<and> prepare_materials_data (items ore_dm) [(''Ore'', 1)] = Inr [(''Ore'', 1, 1, Single 5, - 1)]
   \<and> split_materials [(''Ore'', 1, 1, Single 5, - 1)] = Inr (no_gold_rows, [], [])
   \<and> expand_A no_gold_rows = [(''Ore'', 5, 0)]
   \<and> (\<exists>A1 A2 A3 t.
        calculate_A_materials no_gold_rows (expand_A no_gold_rows) 0 = Inr (A1, A2, A3, t)
        \<and> A1 ''Ore'' = Some 0 \<and> A2 ''Ore'' = Some 1 \<and> A3 ''Ore'' = Some 0)
   \<and> expand_A short_rows = [(''Ore'', 5, - 1)]
   \<and> (\<exists>A1 A2 A3 t.
        calculate_A_materials short_rows (expand_A short_rows) 0 = Inr (A1, A2, A3, t)
        \<and> A1 ''Ore'' = Some 0 \<and> A2 ''Ore'' = Some 0 \<and> A3 ''Ore'' = Some 1)"
proof -
  have agg: "get_total_materials 1 ore_dm [(''Ore'', 1)] = Inr [''Ore'' \<mapsto> 1]"
    by (simp add: get_total_materials_def ore_dm_def merge_into_def fun_eq_iff)
  have prep: "prepare_materials_data (items ore_dm) [(''Ore'', 1)] =
      Inr [(''Ore'', 1, 1, Single 5, - 1)]"
    by (simp add: ore_dm_def)
  have split: "split_materials [(''Ore'', 1, 1, Single 5, - 1)] = Inr (no_gold_rows, [], [])"
    by (simp add: split_materials_def no_gold_rows_def)
  have 1: "calculate_A_materials no_gold_rows (expand_A no_gold_rows) 0 =
      Inr ([''Ore'' \<mapsto> 0], [''Ore'' \<mapsto> 1], [''Ore'' \<mapsto> 0], (None, 0, 0))"
    unfolding expand_A_no_gold_rows
    by (simp add: calculate_A_materials_def no_gold_rows_def zero_buckets_def increment_def
        Let_def)
  have 2: "calculate_A_materials short_rows (expand_A short_rows) 0 =
      Inr ([''Ore'' \<mapsto> 0], [''Ore'' \<mapsto> 0], [''Ore'' \<mapsto> 1], (None, 0, 0))"
    unfolding expand_A_short_rows
    by (simp add: calculate_A_materials_def short_rows_def zero_buckets_def increment_def
        Let_def)
  show ?thesis using agg prep split 1 2 expand_A_no_gold_rows expand_A_short_rows by auto
qed

section \<open>Stable sort by key\<close>

lemma keys_of_Inr:
  "keys_of f xs = Inr ys \<Longrightarrow> map f xs = map Inr ys"
proof (induction xs arbitrary: ys)
  case Nil
  then show ?case by simp
next
  case (Cons x xs)
  then show ?case by (auto split: sum.splits)
qed

lemma keys_of_ok:
  "\<forall>x \<in> set xs. \<exists>y. f x = Inr y \<Longrightarrow> \<exists>ys. keys_of f xs = Inr ys"
proof (induction xs)
  case Nil
  then show ?case by simp
next
  case (Cons x xs)
  then obtain y ys where "f x = Inr y" "keys_of f xs = Inr ys" by auto
  then show ?case by simp
qed

lemma key_A_Inr: "key_A row = Inr (k, r) \<Longrightarrow> k = ratio_A r \<and> untyped_A r = row"
  by (cases row rule: key_A.cases) (auto simp: ratio_A_def untyped_A_def split: if_splits)

lemma key_B_Inr: "key_B row = Inr (k, r) \<Longrightarrow> k = ratio_B r \<and> untyped_B r = row"
  by (cases row rule: key_B.cases) (auto simp: ratio_B_def untyped_B_def split: if_splits)

lemma keyed_A:
  assumes "keys_of key_A xs = Inr ys"
  shows "map fst ys = map ratio_A (map snd ys) \<and> map untyped_A (map snd ys) = xs"
  using assms
proof (induction xs arbitrary: ys)
  case Nil
  then show ?case by simp
next
  case (Cons x xs)
  from Cons.prems obtain y ys' where y: "key_A x = Inr y" and ys': "keys_of key_A xs = Inr ys'"
    and ys: "ys = y # ys'" by (auto split: sum.splits)
  obtain k r where kr: "y = (k, r)" by (cases y)
  from key_A_Inr [of x k r] y kr Cons.IH [OF ys'] show ?case by (simp add: ys)
qed

lemma keyed_B:
  assumes "keys_of key_B xs = Inr ys"
  shows "map fst ys = map ratio_B (map snd ys) \<and> map untyped_B (map snd ys) = xs"
  using assms
proof (induction xs arbitrary: ys)
  case Nil
  then show ?case by simp
next
  case (Cons x xs)
  from Cons.prems obtain y ys' where y: "key_B x = Inr y" and ys': "keys_of key_B xs = Inr ys'"
    and ys: "ys = y # ys'" by (auto split: sum.splits)
  obtain k r where kr: "y = (k, r)" by (cases y)
  from key_B_Inr [of x k r] y kr Cons.IH [OF ys'] show ?case by (simp add: ys)
qed

text \<open>Sorting key-decorated rows and dropping the keys leaves the rows in ascending
  key order and keeps every row.\<close>

lemma decorated_sort:
  assumes "map fst ys = map ratio (map snd ys)"
  shows "sorted (map ratio (map snd (sort_key fst ys)))
         \<and> mset (map snd (sort_key fst ys)) = mset (map snd ys)"
proof -
  have "\<forall>y \<in> set ys. fst y = ratio (snd y)"
    using assms by (induction ys) auto
  then have "\<forall>y \<in> set (sort_key fst ys). fst y = ratio (snd y)" by simp
  then have "map ratio (map snd (sort_key fst ys)) = map fst (sort_key fst ys)" by simp
  moreover have "sorted (map fst (sort_key fst ys))" by (rule sorted_sort_key)
  moreover have "mset (sort_key fst ys) = mset ys" by (rule mset_sort)
  ultimately show ?thesis by (metis mset_map)
qed

lemma split_materials_sorted:
  assumes "split_materials md = Inr (A, B, C)"
  shows "sorted (map ratio_A A) \<and> sorted (map ratio_B B)
         \<and> mset (map untyped_A A) = mset (filter (\<lambda>(m, q, l, cp, gp). l = 1) md)
         \<and> mset (map untyped_B B) = mset (filter (\<lambda>(m, q, l, cp, gp). l = 2) md)
         \<and> C = filter (\<lambda>(m, q, l, cp, gp). l = 3) md"
proof -
  let ?A = "filter (\<lambda>(m, q, l, cp, gp). l = 1) md"
  let ?B = "filter (\<lambda>(m, q, l, cp, gp). l = 2) md"
  from assms obtain ka kb where ka: "keys_of key_A ?A = Inr ka" and kb: "keys_of key_B ?B = Inr kb"
    and A: "A = map snd (sort_key fst ka)" and B: "B = map snd (sort_key fst kb)"
    and C: "C = filter (\<lambda>(m, q, l, cp, gp). l = 3) md"
    by (auto simp: split_materials_def Let_def split: sum.splits)
  from keyed_A [OF ka] have a: "map fst ka = map ratio_A (map snd ka)"
    "map untyped_A (map snd ka) = ?A" by simp_all
  from keyed_B [OF kb] have b: "map fst kb = map ratio_B (map snd kb)"
    "map untyped_B (map snd kb) = ?B" by simp_all
  from decorated_sort [OF a(1)] have sa: "sorted (map ratio_A A)"
    "mset A = mset (map snd ka)" by (simp_all add: A)
  from decorated_sort [OF b(1)] have sb: "sorted (map ratio_B B)"
    "mset B = mset (map snd kb)" by (simp_all add: B)
  have "mset (map untyped_A A) = mset ?A"
    using sa(2) a(2) by (metis mset_map)
  moreover have "mset (map untyped_B B) = mset ?B"
    using sb(2) b(2) by (metis mset_map)
  ultimately show ?thesis using sa(1) sb(1) C by simp
qed

lemma key_A_sortable: "sortable row \<Longrightarrow> fst (snd (snd row)) = 1 \<Longrightarrow> \<exists>y. key_A row = Inr y"
  by (cases row rule: key_A.cases) auto

lemma key_B_sortable: "sortable row \<Longrightarrow> fst (snd (snd row)) = 2 \<Longrightarrow> \<exists>y. key_B row = Inr y"
  by (cases row rule: key_B.cases) auto

lemma split_materials_ok:
  assumes "list_all sortable md"
  shows "\<exists>A B C. split_materials md = Inr (A, B, C)"
proof -
  let ?A = "filter (\<lambda>(m, q, l, cp, gp). l = 1) md"
  let ?B = "filter (\<lambda>(m, q, l, cp, gp). l = 2) md"
  have "\<forall>x \<in> set ?A. \<exists>y. key_A x = Inr y"
    using assms key_A_sortable by (auto simp: list_all_iff)
  from keys_of_ok [OF this] obtain ka where ka: "keys_of key_A ?A = Inr ka" by blast
  have "\<forall>x \<in> set ?B. \<exists>y. key_B x = Inr y"
    using assms key_B_sortable by (auto simp: list_all_iff)
  from keys_of_ok [OF this] obtain kb where kb: "keys_of key_B ?B = Inr kb" by blast
  show ?thesis using ka kb by (simp add: split_materials_def Let_def)
qed

lemma split_mixed_rows:
  "split_materials mixed_rows =
     Inr ([(''Gem'', 1, 1, 3, - 1), (''Oak'', 1, 1, 2, 10), (''Ore'', 3, 1, 5, 8)],
          [(''Fur'', 2, 2, (1, 9), 2), (''Hemp'', 2, 2, (4, 7), 6)],
          [(''Wood'', 4, 3, Single 10, 10)])"
  by code_simp

lemma split_unset_gold_rows:
  "split_materials unset_gold_rows =
     Inr ([(''Y'', 1, 1, 2, - 1), (''X'', 1, 1, 1, - 1)], [], [])"
  by code_simp

section \<open>Sort order of the channels\<close>

text \<open>
  Claim C7. Ticket rows are sorted ascending by ticket price / gold price and camp rows by
  camp contribution / gold price, and a row whose gold price is unset should be ordered
  by its channel price alone. The code computes \<open>x[3]/x[4]\<close> without testing the gold
  price: an unset gold price enters the key as the divisor \<open>-1\<close>. Of two ticket
  materials without gold price, of ticket prices 1 and 2, the dearer one is sorted first;
  among priced materials, \<open>Gem\<close> (ticket price 3, no gold price) gets key \<open>-3\<close> and
  precedes the ratios \<open>1/5\<close> and \<open>5/8\<close>; a gold price of zero makes the sort fail.
\<close>

theorem unset_gold_sorted_descending:
  "split_materials unset_gold_rows =
     Inr ([(''Y'', 1, 1, 2, - 1), (''X'', 1, 1, 1, - 1)], [], [])
   \<and> \<not> sorted (map (\<lambda>(m, q, l, tp, gp). tp)
            ([(''Y'', 1, 1, 2, - 1), (''X'', 1, 1, 1, - 1)] :: ticket_row list))
   \<and> split_materials mixed_rows =
       Inr ([(''Gem'', 1, 1, 3, - 1), (''Oak'', 1, 1, 2, 10), (''Ore'', 3, 1, 5, 8)],
            [(''Fur'', 2, 2, (1, 9), 2), (''Hemp'', 2, 2, (4, 7), 6)],
            [(''Wood'', 4, 3, Single 10, 10)])
   \<and> ratio_A (''Gem'', 1, 1, 3, - 1) = - 3
   \<and> split_materials [(''Free'', 1, 1, Single 5, 0)] = Inl ZeroDivisionError"
proof -
  have zero: "split_materials [(''Free'', 1, 1, Single 5, 0)] = Inl ZeroDivisionError"
    by (simp add: split_materials_def)
  have key: "ratio_A (''Gem'', 1, 1, 3, - 1) = - 3" by (simp add: ratio_A_def)
  show ?thesis using split_unset_gold_rows split_mixed_rows zero key by simp
qed

end
